theory Spec2Isabelle
  imports Complex_Main "HOL-Library.Word"
begin

unbundle bit_operations_syntax

section \<open>The file\_input module of Astra: data model\<close>

text \<open>
  The module replays an MPEG transport stream file. The C structure
  \<^verbatim>\<open>module_data_t\<close> becomes a record; the nested structures \<^verbatim>\<open>sync\<close> and
  \<^verbatim>\<open>input\<close> are flattened, their fields carrying the prefix of the structure.
  Pointers into the input buffer are offsets from \<^verbatim>\<open>input.buffer\<close>, and a pointer
  that may be \<^verbatim>\<open>NULL\<close> is an \<open>option\<close>. The socket pair is the list of bytes
  sent on \<^verbatim>\<open>sync.fd[0]\<close> and not yet received on \<^verbatim>\<open>sync.fd[1]\<close>. What the module
  logs is kept in the field \<open>log\<close>, newest entry last, and \<open>eof_calls\<close> counts
  the calls of the Lua callback.
\<close>

type_synonym u8 = "8 word"
type_synonym u32 = "32 word"
type_synonym u64 = "64 word"

text \<open>
  Modelled from the spec: the macros \<^verbatim>\<open>TS_PACKET_SIZE\<close> and \<^verbatim>\<open>M2TS_PACKET_SIZE\<close>
  come from \<^verbatim>\<open>astra.h\<close>; the specification gives 188 bytes for a transport packet
  and 192 bytes for an M2TS cell.
\<close>

definition TS_PACKET_SIZE :: nat where
  "TS_PACKET_SIZE = 188"

definition M2TS_PACKET_SIZE :: nat where
  "M2TS_PACKET_SIZE = 192"

definition INPUT_BUFFER_SIZE :: int where
  "INPUT_BUFFER_SIZE = 2"

definition SYNC_BUFFER_SIZE :: nat where
  "SYNC_BUFFER_SIZE = TS_PACKET_SIZE * 2048"

text \<open>
  Behaviour the C standard leaves undefined is a value of its own, so that no
  function of the model reads a byte that is not there.
\<close>

datatype fault =
    Null_dereference | Out_of_bounds | Uninitialised_read | Signed_overflow | Division_by_zero

datatype log_entry =
    Warning string
  | Error string
  | Error_count string u32
  | Warning_ms string real

record module_data =
  lock :: "string option"
  loop :: bool
  fd :: int
  idx_callback :: int
  file_size :: u64
  ts_size :: int
  start_time :: u32
  length_ms :: u32
  pause :: int
  reposition :: bool
  sync_chan :: "u8 list"
  sync_buffer :: "u8 list"
  sync_buffer_size :: u32
  sync_buffer_count :: u32
  sync_buffer_read :: u32
  sync_buffer_write :: u32
  sync_buffer_overflow :: u32
  pcr :: u64
  input_buffer :: "u8 list"
  input_ptr :: "nat option"
  input_end :: nat
  input_size :: nat
  input_skip :: u64
  log :: "log_entry list"
  eof_calls :: nat

definition add_log :: "log_entry \<Rightarrow> module_data \<Rightarrow> module_data" where
  "add_log e m = m\<lparr>log := log m @ [e]\<rparr>"

definition fbind :: "fault + 'a \<Rightarrow> ('a \<Rightarrow> fault + 'b) \<Rightarrow> fault + 'b" where
  "fbind r f = (case r of Inl e \<Rightarrow> Inl e | Inr v \<Rightarrow> f v)"

definition peek :: "u8 list \<Rightarrow> nat \<Rightarrow> fault + u8" where
  "peek mem i = (if i < length mem then Inr (mem ! i) else Inl Out_of_bounds)"

section \<open>PCR arithmetic\<close>

text \<open>
  \<^verbatim>\<open>check_pcr(ts)\<close>: the conjunction is evaluated left to right and stops at the
  first false conjunct, so a byte is read only when the bytes before it passed.
\<close>

definition check_pcr :: "u8 list \<Rightarrow> nat \<Rightarrow> fault + bool" where
  "check_pcr mem ts =
     fbind (peek mem (ts + 3)) (\<lambda>b3.
       if b3 AND 0x20 = 0 then Inr False
       else fbind (peek mem (ts + 4)) (\<lambda>b4.
         if \<not> 0 < b4 then Inr False
         else fbind (peek mem (ts + 5)) (\<lambda>b5.
           if b5 AND 0x10 = 0 then Inr False
           else Inr (b5 AND 0x40 = 0))))"

text \<open>
  \<^verbatim>\<open>calc_pcr(ts)\<close>: the bytes are promoted to 32-bit \<^verbatim>\<open>int\<close> before they are
  shifted, and the result is converted to \<^verbatim>\<open>uint64_t\<close> with its sign. A shift into
  the sign bit is taken as the two's complement wrap-around.
\<close>

definition calc_pcr :: "u8 list \<Rightarrow> nat \<Rightarrow> fault + u64" where
  "calc_pcr mem ts =
     fbind (peek mem (ts + 6)) (\<lambda>b6.
     fbind (peek mem (ts + 7)) (\<lambda>b7.
     fbind (peek mem (ts + 8)) (\<lambda>b8.
     fbind (peek mem (ts + 9)) (\<lambda>b9.
     fbind (peek mem (ts + 10)) (\<lambda>b10.
     fbind (peek mem (ts + 11)) (\<lambda>b11.
       let pcr_base = (scast ((push_bit 25 (ucast b6) OR push_bit 17 (ucast b7)
                        OR push_bit 9 (ucast b8) OR push_bit 1 (ucast b9)
                        OR drop_bit 7 (ucast b10)) :: u32) :: u64);
           pcr_ext = (scast ((push_bit 8 (ucast b10 AND 1) OR ucast b11) :: u32) :: u64)
       in Inr (pcr_base * 300 + pcr_ext)))))))"

text \<open>\<^verbatim>\<open>m2ts_time(ts)\<close>: the four bytes before the packet, most significant first.\<close>

definition m2ts_time :: "u8 list \<Rightarrow> nat \<Rightarrow> fault + u32" where
  "m2ts_time mem ts =
     fbind (peek mem ts) (\<lambda>b0.
     fbind (peek mem (ts + 1)) (\<lambda>b1.
     fbind (peek mem (ts + 2)) (\<lambda>b2.
     fbind (peek mem (ts + 3)) (\<lambda>b3.
       Inr (push_bit 24 (ucast b0) OR push_bit 16 (ucast b1)
            OR push_bit 8 (ucast b2) OR ucast b3)))))"

section \<open>Seeking the next PCR\<close>

text \<open>
  The \<^verbatim>\<open>for\<close> loops of \<^verbatim>\<open>seek_pcr_188\<close> and \<^verbatim>\<open>seek_pcr_192\<close>, from the position
  \<open>pos\<close> to the end \<open>e\<close> of the buffer.
\<close>

function seek_pcr_188_loop :: "u8 list \<Rightarrow> nat \<Rightarrow> nat \<Rightarrow> fault + nat option" where
  "seek_pcr_188_loop mem e pos =
     (if pos < e then
        (case check_pcr mem pos of
           Inl f \<Rightarrow> Inl f
         | Inr c \<Rightarrow> if c then Inr (Some pos) else seek_pcr_188_loop mem e (pos + TS_PACKET_SIZE))
      else Inr None)"
  by pat_completeness auto
termination
  by (relation "measure (\<lambda>(mem, e, pos). e - pos)") (auto simp: TS_PACKET_SIZE_def)

definition seek_pcr_188 :: "u8 list \<Rightarrow> nat \<Rightarrow> nat \<Rightarrow> fault + nat option" where
  "seek_pcr_188 mem buffer buffer_end = seek_pcr_188_loop mem buffer_end (buffer + TS_PACKET_SIZE)"

function seek_pcr_192_loop :: "u8 list \<Rightarrow> nat \<Rightarrow> nat \<Rightarrow> fault + nat option" where
  "seek_pcr_192_loop mem e pos =
     (if pos < e then
        (case check_pcr mem (pos + 4) of
           Inl f \<Rightarrow> Inl f
         | Inr c \<Rightarrow> if c then Inr (Some pos) else seek_pcr_192_loop mem e (pos + M2TS_PACKET_SIZE))
      else Inr None)"
  by pat_completeness auto
termination
  by (relation "measure (\<lambda>(mem, e, pos). e - pos)") (auto simp: M2TS_PACKET_SIZE_def)

definition seek_pcr_192 :: "u8 list \<Rightarrow> nat \<Rightarrow> nat \<Rightarrow> fault + nat option" where
  "seek_pcr_192 mem buffer buffer_end = seek_pcr_192_loop mem buffer_end (buffer + M2TS_PACKET_SIZE)"

section \<open>Opening and probing the file\<close>

text \<open>
  \<^verbatim>\<open>pread(fd, buf, count, offset)\<close> on a file with the given content: the number
  returned and the bytes stored at the start of \<^verbatim>\<open>buf\<close>. The offset is an
  \<^verbatim>\<open>off_t\<close>; a negative one is refused with \<open>-1\<close>.
\<close>

definition pread :: "u8 list \<Rightarrow> nat \<Rightarrow> u64 \<Rightarrow> int \<times> u8 list" where
  "pread file count offset =
     (if sint offset < 0 then (-1, [])
      else (let d = take count (drop (unat offset) file) in (int (length d), d)))"

definition store_at :: "u8 list \<Rightarrow> nat \<Rightarrow> u8 list \<Rightarrow> u8 list" where
  "store_at mem i d = take i mem @ d @ drop (i + length d) mem"

text \<open>
  The end of \<^verbatim>\<open>open_file\<close>, after the format has been looked at: the test of
  \<^verbatim>\<open>input.ptr\<close> and the first PCR.
\<close>

definition open_file_pcr :: "module_data \<Rightarrow> fault + (int \<times> module_data)" where
  "open_file_pcr m =
     (case input_ptr m of
        None \<Rightarrow> Inr (0, (add_log (Error ''first PCR is not found'') m)\<lparr>fd := 0\<rparr>)
      | Some p \<Rightarrow>
          fbind (if ts_size m = int TS_PACKET_SIZE then calc_pcr (input_buffer m) p
                 else calc_pcr (input_buffer m) (p + 4))
            (\<lambda>v. Inr (1, m\<lparr>pcr := v\<rparr>)))"

text \<open>The branch of \<^verbatim>\<open>open_file\<close> for a buffer recognised as M2TS.\<close>

definition open_file_m2ts :: "u8 list \<Rightarrow> module_data \<Rightarrow> fault + module_data" where
  "open_file_m2ts file m =
     fbind (seek_pcr_192 (input_buffer m) 0 (input_end m)) (\<lambda>ptr.
     fbind (case ptr of None \<Rightarrow> Inl Null_dereference
                      | Some p \<Rightarrow> m2ts_time (input_buffer m) p) (\<lambda>t.
       let m1 = m\<lparr>ts_size := int M2TS_PACKET_SIZE, input_ptr := ptr, start_time := t div 1000\<rparr>;
           tail = snd (pread file M2TS_PACKET_SIZE (file_size m1 - of_nat M2TS_PACKET_SIZE))
       in if length tail \<le> 4 then Inl Uninitialised_read
          else if tail ! 4 \<noteq> 0x47
          then Inr (add_log (Warning ''failed to get M2TS file length'') m1)
          else fbind (m2ts_time tail 0) (\<lambda>stop.
                 Inr (m1\<lparr>length_ms := stop div 1000 - start_time m1\<rparr>))))"

text \<open>
  The start of \<^verbatim>\<open>open_file\<close> once \<^verbatim>\<open>open\<close> has answered a descriptor above
  zero: \<^verbatim>\<open>fstat\<close> gives the size of the file, and a stored offset at or past
  the end of the file is given up.
\<close>

definition open_file_stat :: "int \<Rightarrow> u8 list \<Rightarrow> module_data \<Rightarrow> module_data" where
  "open_file_stat fdn file m =
     (let m1 = m\<lparr>fd := fdn, file_size := of_nat (length file)\<rparr>
      in if input_skip m1 \<noteq> 0 \<and> file_size m1 \<le> input_skip m1
         then (add_log (Warning ''skip value is greater than the file size'') m1)\<lparr>input_skip := 0\<rparr>
         else m1)"

text \<open>
  \<^verbatim>\<open>open_file(mod)\<close>. The arguments \<open>fdn\<close> and \<open>file\<close> are what the operating
  system answers: the descriptor returned by \<^verbatim>\<open>open\<close> and the content of the
  file named \<^verbatim>\<open>mod->filename\<close>. It is given in three parts: the read of the
  window (\<^verbatim>\<open>pread\<close> into \<^verbatim>\<open>input.buffer\<close>), the chain of tests on the bytes
  of the window, and the function itself. The prefix \<^verbatim>\<open>[file_input <filename>]\<close>
  that the macro \<^verbatim>\<open>MSG\<close> puts before each message is left out of the log.
\<close>

definition open_file_read :: "u8 list \<Rightarrow> module_data \<Rightarrow> int \<times> module_data" where
  "open_file_read file m =
     (let r = pread file (input_size m) (input_skip m)
      in (fst r, m\<lparr>input_buffer := store_at (input_buffer m) 0 (snd r)\<rparr>))"

definition open_file_probe :: "u8 list \<Rightarrow> module_data \<Rightarrow> fault + (int \<times> module_data)" where
  "open_file_probe file m =
     fbind (peek (input_buffer m) 0) (\<lambda>b0.
     fbind (if b0 = 0x47 then peek (input_buffer m) TS_PACKET_SIZE else Inr 0) (\<lambda>b188.
       if b0 = 0x47 \<and> b188 = 0x47 then
         fbind (seek_pcr_188 (input_buffer m) 0 (input_end m)) (\<lambda>ptr.
           open_file_pcr (m\<lparr>ts_size := int TS_PACKET_SIZE, input_ptr := ptr\<rparr>))
       else
         fbind (peek (input_buffer m) 4) (\<lambda>b4.
         fbind (if b4 = 0x47 then peek (input_buffer m) (4 + M2TS_PACKET_SIZE) else Inr 0) (\<lambda>b196.
           if b4 = 0x47 \<and> b196 = 0x47 then fbind (open_file_m2ts file m) open_file_pcr
           else Inr (0, (add_log (Error ''wrong file format'') m)\<lparr>fd := 0\<rparr>)))))"

definition open_file :: "int \<Rightarrow> u8 list \<Rightarrow> module_data \<Rightarrow> fault + (int \<times> module_data)" where
  "open_file fdn file m =
     (if fdn \<le> 0 then Inr (0, m\<lparr>fd := 0\<rparr>)
      else
        let r = open_file_read file (open_file_stat fdn file m)
        in if int (input_size (snd r)) \<noteq> fst r
           then open_file_pcr (add_log (Warning ''file is too small'') (snd r))
           else open_file_probe file (snd r))"

section \<open>The ring between the producer thread and the event loop\<close>

text \<open>
  \<^verbatim>\<open>sync_queue_push(mod, ts)\<close>. The packet \<open>ts\<close> is the memory the pointer
  refers to, \<open>None\<close> for \<^verbatim>\<open>NULL\<close>. The argument \<open>sent\<close> says whether \<^verbatim>\<open>send\<close>
  returned 1, that is whether the socket took the byte.
\<close>

definition sync_queue_push :: "bool \<Rightarrow> u8 list option \<Rightarrow> module_data \<Rightarrow> fault + module_data" where
  "sync_queue_push sent ts m =
     (case ts of
        None \<Rightarrow>
          Inr (if sent then m\<lparr>sync_chan := sync_chan m @ [0xFF]\<rparr>
               else add_log (Error ''failed to push exit signal to queue'') m)
      | Some pkt \<Rightarrow>
          if sync_buffer_size m \<le> sync_buffer_count m
          then Inr (m\<lparr>sync_buffer_overflow := sync_buffer_overflow m + 1\<rparr>)
          else
            let m1 = (if sync_buffer_overflow m \<noteq> 0
                      then (add_log (Error_count ''sync buffer overflow. dropped %d packets''
                                       (sync_buffer_overflow m)) m)\<lparr>sync_buffer_overflow := 0\<rparr>
                      else m)
            in if length pkt < TS_PACKET_SIZE
                  \<or> length (sync_buffer m1) < unat (sync_buffer_write m1) + TS_PACKET_SIZE
               then Inl Out_of_bounds
               else
                 let m2 = m1\<lparr>sync_buffer := store_at (sync_buffer m1) (unat (sync_buffer_write m1))
                                                (take TS_PACKET_SIZE pkt)\<rparr>;
                     m3 = m2\<lparr>sync_buffer_write := sync_buffer_write m2 + of_nat TS_PACKET_SIZE\<rparr>;
                     m4 = (if sync_buffer_size m3 \<le> sync_buffer_write m3
                           then m3\<lparr>sync_buffer_write := 0\<rparr> else m3);
                     m5 = m4\<lparr>sync_buffer_count := sync_buffer_count m4 + of_nat TS_PACKET_SIZE\<rparr>
                 in Inr (if sent then m5\<lparr>sync_chan := sync_chan m5 @ [0]\<rparr>
                         else add_log (Error (''failed to push signal to queue'' @ [CHR 0x0A])) m5))"

text \<open>
  \<^verbatim>\<open>sync_queue_pop(mod, ts)\<close>. The result is \<open>None\<close> when \<^verbatim>\<open>recv\<close> does not
  return, no byte being on its way; otherwise the packet copied to \<^verbatim>\<open>ts\<close>, if
  one was, and the new state. The argument \<open>received\<close> says whether \<^verbatim>\<open>recv\<close>
  returned 1; when it did not, \<^verbatim>\<open>cmd[0]\<close> is read without ever having been
  written.
\<close>

definition sync_queue_pop ::
  "bool \<Rightarrow> module_data \<Rightarrow> (fault + (u8 list option \<times> module_data)) option" where
  "sync_queue_pop received m =
     (if \<not> received then Some (Inl Uninitialised_read)
      else
        (case sync_chan m of
           [] \<Rightarrow> None
         | cmd # rest \<Rightarrow>
             Some (
               let m1 = m\<lparr>sync_chan := rest\<rparr> in
               if cmd = 0xFF then
                 Inr (None, if idx_callback m1 \<noteq> 0 then m1\<lparr>eof_calls := Suc (eof_calls m1)\<rparr> else m1)
               else if length (sync_buffer m1) < unat (sync_buffer_read m1) + TS_PACKET_SIZE
               then Inl Out_of_bounds
               else
                 let ts = take TS_PACKET_SIZE (drop (unat (sync_buffer_read m1)) (sync_buffer m1));
                     m2 = m1\<lparr>sync_buffer_read := sync_buffer_read m1 + of_nat TS_PACKET_SIZE\<rparr>;
                     m3 = (if sync_buffer_size m2 \<le> sync_buffer_read m2
                           then m2\<lparr>sync_buffer_read := 0\<rparr> else m2)
                 in Inr (Some ts, m3\<lparr>sync_buffer_count := sync_buffer_count m3 - of_nat TS_PACKET_SIZE\<rparr>))))"

section \<open>The producer thread\<close>

text \<open>
  Of \<^verbatim>\<open>thread_loop\<close>, the parts the properties below are about. The first is
  the search for the end of the block, the next packet with a PCR after the
  cursor, and the number of packets up to it, \<^verbatim>\<open>block_size\<close>: the distance
  divided by \<^verbatim>\<open>mod->ts_size\<close>, an integer division that is undefined for zero.
  The end of the block is never before the cursor and the packet size never
  below zero, so the division of C and that of HOL give the same quotient.
\<close>

definition thread_loop_seek :: "module_data \<Rightarrow> fault + nat option" where
  "thread_loop_seek m =
     (case input_ptr m of
        None \<Rightarrow> Inl Null_dereference
      | Some p \<Rightarrow>
          if ts_size m = int TS_PACKET_SIZE then seek_pcr_188 (input_buffer m) p (input_end m)
          else seek_pcr_192 (input_buffer m) p (input_end m))"

definition thread_loop_block_size :: "module_data \<Rightarrow> nat \<Rightarrow> fault + u32" where
  "thread_loop_block_size m block_end =
     (case input_ptr m of
        None \<Rightarrow> Inl Null_dereference
      | Some p \<Rightarrow>
          if ts_size m = 0 then Inl Division_by_zero
          else Inr (of_int ((int block_end - int p) div ts_size m)))"

text \<open>
  The second part is the body of \<^verbatim>\<open>if(!block_end)\<close>: the buffer is loaded
  again from the file, and a short read is the end of the file. \<open>Break\<close>
  leaves the loop of the thread, \<open>Continue\<close> starts its next round.
\<close>

datatype control = Continue | Break

definition thread_loop_refill ::
  "bool \<Rightarrow> u8 list \<Rightarrow> module_data \<Rightarrow> fault + (control \<times> module_data)" where
  "thread_loop_refill sent file m =
     (case input_ptr m of
        None \<Rightarrow> Inl Null_dereference
      | Some done \<Rightarrow>
          let m1 = m\<lparr>input_skip := input_skip m + of_nat done\<rparr>;
              r = pread file (input_size m1) (input_skip m1);
              m2 = m1\<lparr>input_buffer := store_at (input_buffer m1) 0 (snd r), input_ptr := Some 0\<rparr>
          in if fst r \<noteq> int (input_size m2) then
               (if \<not> loop m2 then fbind (sync_queue_push sent None m2) (\<lambda>m3. Inr (Break, m3))
                else Inr (Continue, m2\<lparr>input_skip := 0, reposition := True\<rparr>))
             else Inr (Continue, m2))"

text \<open>What \<^verbatim>\<open>thread_loop\<close> does after its loop, before the thread ends.\<close>

definition thread_loop_exit :: "module_data \<Rightarrow> module_data" where
  "thread_loop_exit m = (if 0 < fd m then m\<lparr>input_skip := 0, fd := 0\<rparr> else m)"

text \<open>
  The third part is the stream syncing at the end of a block. The local
  variables of \<^verbatim>\<open>thread_loop\<close> that it uses are a record. A \<^verbatim>\<open>double\<close> is
  the real number it stands for; the model stores and compares such values and
  does no arithmetic on them. The one value the code computes in doubles here,
  \<^verbatim>\<open>block_time_total - (time_sync_e - time_sync_b) / 1000.0 - pause_total\<close> when
  the clock did not go back, is the argument \<open>measured\<close>: what the floating
  point unit answers. \<open>time_sync_e\<close> and \<open>now\<close> are the two readings of
  \<^verbatim>\<open>asc_utime\<close>.
\<close>

record pacing =
  time_sync_b :: u64
  block_time_total :: real
  total_sync_diff :: real
  pause_total :: real

definition stream_sync_measure ::
  "u64 \<Rightarrow> real \<Rightarrow> pacing \<times> module_data \<Rightarrow> pacing \<times> module_data" where
  "stream_sync_measure time_sync_e measured s =
     (let t = fst s; m = snd s in
      if time_sync_e < time_sync_b t
      then (t\<lparr>total_sync_diff := - 1000000\<rparr>, add_log (Warning ''timetravel detected'') m)
      else (t\<lparr>total_sync_diff := measured\<rparr>, m))"

definition stream_sync_reset :: "u64 \<Rightarrow> pacing \<times> module_data \<Rightarrow> pacing \<times> module_data" where
  "stream_sync_reset now s =
     (let t = fst s; m = snd s in
      if total_sync_diff t < - 100 \<or> 100 < total_sync_diff t
      then (t\<lparr>time_sync_b := now, block_time_total := 0, total_sync_diff := 0, pause_total := 0\<rparr>,
            add_log (Warning_ms ''wrong syncing time: %.2fms. reset time values'' (total_sync_diff t)) m)
      else s)"

definition thread_loop_stream_sync ::
  "u64 \<Rightarrow> real \<Rightarrow> u64 \<Rightarrow> pacing \<times> module_data \<Rightarrow> pacing \<times> module_data" where
  "thread_loop_stream_sync time_sync_e measured now s =
     stream_sync_reset now (stream_sync_measure time_sync_e measured s)"

section \<open>The lock file\<close>

text \<open>
  \<^verbatim>\<open>sprintf(skip_str, "%lu", v)\<close> writes the decimal digits of \<open>v\<close>, and
  \<^verbatim>\<open>strtoul(skip_str, NULL, 10)\<close> reads them back: white space, an optional
  sign, then digits up to the first byte that is not one. Both are functions of
  the C library. The array that \<^verbatim>\<open>strtoul\<close> is given is 64 bytes long and
  nothing ends it, so a scan that finds no stopping byte in it leaves the array.
\<close>

function decimal :: "nat \<Rightarrow> u8 list" where
  "decimal n = (if n < 10 then [of_nat (48 + n)] else decimal (n div 10) @ [of_nat (48 + n mod 10)])"
  by pat_completeness auto
termination
  by (relation "measure (\<lambda>n. n)") auto

declare decimal.simps [simp del]

definition sprintf_lu :: "u64 \<Rightarrow> u8 list" where
  "sprintf_lu v = decimal (unat v)"

definition isspace :: "u8 \<Rightarrow> bool" where
  "isspace c = (c = 0x20 \<or> (0x09 \<le> c \<and> c \<le> 0x0D))"

definition isdigit :: "u8 \<Rightarrow> bool" where
  "isdigit c = (0x30 \<le> c \<and> c \<le> 0x39)"

definition ULONG_MAX :: nat where
  "ULONG_MAX = 2 ^ 64 - 1"

fun strtoul_space :: "u8 list \<Rightarrow> u8 list option" where
  "strtoul_space [] = None"
| "strtoul_space (c # cs) = (if isspace c then strtoul_space cs else Some (c # cs))"

fun strtoul_digits :: "nat \<Rightarrow> u8 list \<Rightarrow> nat option" where
  "strtoul_digits acc [] = None"
| "strtoul_digits acc (c # cs) =
     (if isdigit c then strtoul_digits (acc * 10 + (unat c - 48)) cs else Some acc)"

definition strtoul :: "u8 list \<Rightarrow> fault + u64" where
  "strtoul str =
     (case strtoul_space str of
        None \<Rightarrow> Inl Out_of_bounds
      | Some s \<Rightarrow>
          let neg = (hd s = 0x2D);
              ds = (if hd s = 0x2D \<or> hd s = 0x2B then tl s else s)
          in (case strtoul_digits 0 ds of
                None \<Rightarrow> Inl Out_of_bounds
              | Some v \<Rightarrow>
                  Inr (if ULONG_MAX < v then of_nat ULONG_MAX
                       else if neg then - of_nat v else of_nat v)))"

text \<open>
  \<^verbatim>\<open>timer_skip_set(arg)\<close>, run every two seconds. The lock file is its content,
  \<open>None\<close> while there is no such file; \<open>fdn\<close> is the descriptor \<^verbatim>\<open>open\<close>
  returns and \<open>wrote\<close> the number \<^verbatim>\<open>write\<close> returns. A file that opens is
  cut to length zero before anything is written.
\<close>

definition timer_skip_set :: "int \<Rightarrow> int \<Rightarrow> module_data \<Rightarrow> u8 list option \<Rightarrow> u8 list option" where
  "timer_skip_set fdn wrote m lock_file =
     (if 0 < fdn then
        (let skip_str = sprintf_lu (input_skip m)
         in Some (take (nat wrote) skip_str))
      else if fdn = 0 then Some []
      else lock_file)"

section \<open>Initialisation\<close>

text \<open>
  The options of the Lua configuration, \<open>None\<close> for an option that is not
  given; \<open>opt_callback\<close> holds the registry reference when the option is a
  function. The environment collects what the operating system answers during
  \<^verbatim>\<open>module_init\<close>: the two files with the descriptors \<^verbatim>\<open>open\<close> returns for
  them, the bytes the array \<^verbatim>\<open>skip_str\<close> holds before \<^verbatim>\<open>read\<close> fills its
  start, and the bytes of the two blocks \<^verbatim>\<open>malloc\<close> hands out.
\<close>

record options =
  opt_check_length :: "bool option"
  opt_lock :: "string option"
  opt_loop :: "bool option"
  opt_pause :: "int option"
  opt_callback :: "int option"
  opt_buffer_size :: "int option"

record environment =
  env_fd :: int
  env_file :: "u8 list"
  env_lock_fd :: int
  env_lock_file :: "u8 list"
  env_skip_str :: "u8 list"
  env_sync_heap :: "u8 list"
  env_input_heap :: "u8 list"

definition malloc :: "nat \<Rightarrow> u8 list \<Rightarrow> u8 list" where
  "malloc n heap = take n heap @ replicate (n - length heap) 0"

text \<open>The instance before \<^verbatim>\<open>module_init\<close>: every field is zero.\<close>

definition module_zero :: module_data where
  "module_zero =
     \<lparr>lock = None, loop = False, fd = 0, idx_callback = 0, file_size = 0, ts_size = 0,
      start_time = 0, length_ms = 0, pause = 0, reposition = False, sync_chan = [],
      sync_buffer = [], sync_buffer_size = 0, sync_buffer_count = 0, sync_buffer_read = 0,
      sync_buffer_write = 0, sync_buffer_overflow = 0, pcr = 0, input_buffer = [],
      input_ptr = None, input_end = 0, input_size = 0, input_skip = 0, log = [],
      eof_calls = 0\<rparr>"

text \<open>The part of \<^verbatim>\<open>module_init\<close> under \<^verbatim>\<open>if(mod->lock)\<close>.\<close>

definition module_init_lock :: "environment \<Rightarrow> module_data \<Rightarrow> fault + module_data" where
  "module_init_lock env m =
     (case lock m of
        None \<Rightarrow> Inr m
      | Some path \<Rightarrow>
          if env_lock_fd env \<noteq> 0 then
            (let got = (if env_lock_fd env < 0 then [] else take 64 (env_lock_file env));
                 l = (if env_lock_fd env < 0 then - 1 else int (length got));
                 skip_str = store_at (malloc 64 (env_skip_str env)) 0 got
             in if 0 < l then fbind (strtoul skip_str) (\<lambda>v. Inr (m\<lparr>input_skip := v\<rparr>))
                else Inr m)
          else Inr m)"

definition module_init :: "options \<Rightarrow> environment \<Rightarrow> module_data \<Rightarrow> fault + module_data" where
  "module_init opts env m =
     (if opt_check_length opts = Some True then
        fbind (open_file (env_fd env) (env_file env) m) (\<lambda>r. Inr (snd r))
      else
        let m1 = m\<lparr>lock := opt_lock opts,
                   loop := (case opt_loop opts of None \<Rightarrow> loop m | Some b \<Rightarrow> b),
                   pause := (case opt_pause opts of None \<Rightarrow> pause m | Some n \<Rightarrow> n),
                   idx_callback := (case opt_callback opts of None \<Rightarrow> idx_callback m | Some r \<Rightarrow> r)\<rparr>
        in fbind (module_init_lock env m1) (\<lambda>m2.
             let m3 = m2\<lparr>sync_chan := [],
                        sync_buffer := malloc SYNC_BUFFER_SIZE (env_sync_heap env),
                        sync_buffer_size := of_nat SYNC_BUFFER_SIZE\<rparr>;
                 buffer_size = (case opt_buffer_size opts of
                                  None \<Rightarrow> INPUT_BUFFER_SIZE
                                | Some n \<Rightarrow> if n \<le> 0 then INPUT_BUFFER_SIZE else n)
             in if 2 ^ 31 \<le> buffer_size * 1024 * 1024 then Inl Signed_overflow
                else
                  let size = nat (buffer_size * 1024 * 1024)
                  in Inr (m3\<lparr>input_size := size,
                             input_buffer := malloc size (env_input_heap env),
                             input_end := size,
                             input_ptr := Some 0\<rparr>)))"

section \<open>The method position\<close>

text \<open>
  \<^verbatim>\<open>method_position(mod)\<close>. The argument is \<open>None\<close> for \<^verbatim>\<open>nil\<close>, otherwise the
  Lua number as the \<^verbatim>\<open>uint32_t\<close> it is converted to. The result is the number
  pushed on the Lua stack. All of the arithmetic is in \<^verbatim>\<open>uint32_t\<close>.
\<close>

definition method_position :: "u32 option \<Rightarrow> module_data \<Rightarrow> fault + (u32 \<times> module_data)" where
  "method_position arg m =
     (case arg of
        None \<Rightarrow> Inr (0, m)
      | Some pos \<Rightarrow>
          if length_ms m \<le> pos \<or> ts_size m \<noteq> int M2TS_PACKET_SIZE then Inr (0, m)
          else
            let m1 = m\<lparr>reposition := True\<rparr>;
                ts_count = (ucast (file_size m1 div of_nat M2TS_PACKET_SIZE) :: u32);
                ts_skip = (pos * ts_count) div length_ms m1;
                m2 = m1\<lparr>input_skip := ucast (ts_skip * of_nat M2TS_PACKET_SIZE)\<rparr>
            in fbind (case input_ptr m2 of
                        None \<Rightarrow> Inl Null_dereference
                      | Some p \<Rightarrow> m2ts_time (input_buffer m2) p)
                 (\<lambda>curr. Inr (curr div 1000 - start_time m2, m2)))"

section \<open>Notions used to state the properties\<close>

text \<open>
  The window \<^verbatim>\<open>open_file\<close> looks at: the input buffer after the \<^verbatim>\<open>pread\<close>.
\<close>

definition probe_window :: "int \<Rightarrow> u8 list \<Rightarrow> module_data \<Rightarrow> u8 list" where
  "probe_window fdn file m = input_buffer (snd (open_file_read file (open_file_stat fdn file m)))"

text \<open>
  What a caller sees of \<^verbatim>\<open>open_file\<close>: the value returned, the packet size,
  the start time, the length and the cursor; \<open>None\<close> when the call ran into
  undefined behaviour.
\<close>

definition probe_outcome ::
  "fault + (int \<times> module_data) \<Rightarrow> (int \<times> int \<times> u32 \<times> u32 \<times> nat option) option" where
  "probe_outcome r =
     (case r of
        Inl f \<Rightarrow> None
      | Inr x \<Rightarrow> Some (fst x, ts_size (snd x), start_time (snd x), length_ms (snd x),
                        input_ptr (snd x)))"

text \<open>
  The PCR test on packet number \<open>k\<close> of a window of packets of \<open>tsz\<close> bytes:
  on the transport header, which starts the packet for TS and follows the four
  bytes of the time stamp for M2TS.
\<close>

definition packet_has_pcr :: "int \<Rightarrow> u8 list \<Rightarrow> nat \<Rightarrow> fault + bool" where
  "packet_has_pcr tsz w k =
     check_pcr w (k * nat tsz + (if tsz = int TS_PACKET_SIZE then 0 else 4))"

text \<open>A window the chain of tests in \<^verbatim>\<open>open_file\<close> takes for M2TS.\<close>

definition m2ts_window :: "u8 list \<Rightarrow> bool" where
  "m2ts_window w \<longleftrightarrow>
     4 + M2TS_PACKET_SIZE < length w
     \<and> \<not> (w ! 0 = 0x47 \<and> w ! TS_PACKET_SIZE = 0x47)
     \<and> w ! 4 = 0x47 \<and> w ! (4 + M2TS_PACKET_SIZE) = 0x47"

text \<open>
  A condition on the bytes read from a lock file under which \<^verbatim>\<open>strtoul\<close> stops
  among them without having met a digit: after white space and an optional
  sign comes a byte that is not a digit; or nothing was read. Bytes that are
  white space only, or end with the sign, do not meet it, though they are no
  number either: on them the scan goes on into the rest of the array.
\<close>

definition stops_at_nondigit :: "u8 list \<Rightarrow> bool" where
  "stops_at_nondigit s =
     (case dropWhile isspace s of
        [] \<Rightarrow> s = []
      | c # cs \<Rightarrow>
          if c = 0x2D \<or> c = 0x2B then (case cs of [] \<Rightarrow> False | d # ds \<Rightarrow> \<not> isdigit d)
          else \<not> isdigit c)"

text \<open>
  The state of a ring in use: a buffer of \<^verbatim>\<open>SYNC_BUFFER_SIZE\<close> bytes, both
  indices on a packet boundary inside it, and as many packets counted in
  \<open>sync_buffer_count\<close> as there are signal bytes other than \<open>0xFF\<close> on
  their way through the socket pair.
\<close>

definition signals_pending :: "module_data \<Rightarrow> nat" where
  "signals_pending m = length (filter (\<lambda>b. b \<noteq> 0xFF) (sync_chan m))"

definition ring_ok :: "module_data \<Rightarrow> bool" where
  "ring_ok m \<longleftrightarrow>
     sync_buffer_size m = of_nat SYNC_BUFFER_SIZE
     \<and> length (sync_buffer m) = SYNC_BUFFER_SIZE
     \<and> unat (sync_buffer_write m) < SYNC_BUFFER_SIZE
     \<and> TS_PACKET_SIZE dvd unat (sync_buffer_write m)
     \<and> unat (sync_buffer_read m) < SYNC_BUFFER_SIZE
     \<and> TS_PACKET_SIZE dvd unat (sync_buffer_read m)
     \<and> unat (sync_buffer_count m) = TS_PACKET_SIZE * signals_pending m
     \<and> unat (sync_buffer_count m) \<le> SYNC_BUFFER_SIZE"

text \<open>
  A run of the producer and the consumer, one call after the other, every
  \<^verbatim>\<open>send\<close> and \<^verbatim>\<open>recv\<close> transferring its byte. The run has no result when a
  call runs into undefined behaviour or \<^verbatim>\<open>recv\<close> waits for ever.
\<close>

datatype queue_op = Push "u8 list option" | Pop

fun queue_run :: "queue_op list \<Rightarrow> module_data \<Rightarrow> module_data option" where
  "queue_run [] m = Some m"
| "queue_run (Push ts # ops) m =
     (case sync_queue_push True ts m of
        Inl f \<Rightarrow> None
      | Inr m' \<Rightarrow> queue_run ops m')"
| "queue_run (Pop # ops) m =
     (case sync_queue_pop True m of
        Some (Inr r) \<Rightarrow> queue_run ops (snd r)
      | _ \<Rightarrow> None)"

section \<open>Example inputs\<close>

text \<open>
  The state \<^verbatim>\<open>module_init\<close> leaves when no option but the file name is given
  and \<^verbatim>\<open>malloc\<close> hands out zeroed memory: a window of 2 MiB, the cursor at its
  start, an empty ring of 2048 packets.
\<close>

definition default_options :: options where
  "default_options =
     \<lparr>opt_check_length = None, opt_lock = None, opt_loop = None, opt_pause = None,
      opt_callback = None, opt_buffer_size = None\<rparr>"

definition quiet_env :: environment where
  "quiet_env =
     \<lparr>env_fd = 3, env_file = [], env_lock_fd = - 1, env_lock_file = [], env_skip_str = [],
      env_sync_heap = [], env_input_heap = []\<rparr>"

definition init_state :: module_data where
  "init_state =
     module_zero\<lparr>sync_buffer := replicate 385024 0, sync_buffer_size := 385024,
                 input_buffer := replicate 2097152 0, input_ptr := Some 0,
                 input_end := 2097152, input_size := 2097152\<rparr>"

definition example_pacing :: pacing where
  "example_pacing = \<lparr>time_sync_b = 10, block_time_total = 40, total_sync_diff = 3, pause_total = 0\<rparr>"

text \<open>
  Scenario S2 of the specification: a file of three M2TS cells with the time
  stamps 1000000, 2000000 and 11000000, the second cell carrying a PCR.
\<close>

definition cell :: "u8 list \<Rightarrow> u8 list \<Rightarrow> u8 list" where
  "cell stamp hdr = stamp @ hdr @ replicate (192 - length stamp - length hdr) 0"

definition s2_file :: "u8 list" where
  "s2_file = cell [0x00, 0x0F, 0x42, 0x40] [0x47, 0, 0, 0x10]
           @ cell [0x00, 0x1E, 0x84, 0x80] [0x47, 0, 0, 0x20, 1, 0x10]
           @ cell [0x00, 0xA7, 0xD8, 0xC0] [0x47, 0, 0, 0x10]"

text \<open>The state after the first \<^verbatim>\<open>open_file\<close> on the file of scenario S2.\<close>

definition s2_opened :: module_data where
  "s2_opened = init_state\<lparr>fd := 3, file_size := 576,
                 input_buffer := s2_file @ replicate 2096576 0,
                 log := [Warning ''file is too small'']\<rparr>"

text \<open>
  A transport stream of 2 MiB whose first two packets both carry a PCR, and an
  M2TS file of 2 MiB in which no cell does.
\<close>

definition pcr_packet :: "u8 list" where
  "pcr_packet = [0x47, 0, 0, 0x20, 1, 0x10] @ replicate 182 0"

definition ts_file :: "u8 list" where
  "ts_file = pcr_packet @ pcr_packet @ replicate 2096776 0"

definition m2ts_plain_file :: "u8 list" where
  "m2ts_plain_file = cell [0, 0, 0, 0] [0x47] @ cell [0, 0, 0, 0] [0x47] @ replicate 2096768 0"

text \<open>The state after \<^verbatim>\<open>open_file\<close> on that transport stream.\<close>

definition ts_file_opened :: module_data where
  "ts_file_opened = init_state\<lparr>fd := 3, file_size := 2097152, input_buffer := ts_file,
                          ts_size := 188, input_ptr := Some 188, pcr := 0\<rparr>"

text \<open>A ring that is full: 2048 packets are counted and as many signal bytes wait.\<close>

definition full_state :: module_data where
  "full_state = init_state\<lparr>sync_buffer_count := 385024, sync_chan := replicate 2048 0\<rparr>"

text \<open>
  An M2TS file of 100000 cells and 200 seconds being played, and a
  configuration with a lock file: its options, the environment in which the
  lock file has the given content and memory is zeroed, and the state
  \<^verbatim>\<open>module_init\<close> leaves for the offset \<open>v\<close>.
\<close>

definition m2ts_playing :: module_data where
  "m2ts_playing = init_state\<lparr>ts_size := 192, file_size := 19200000, length_ms := 200000\<rparr>"

definition lock_options :: options where
  "lock_options = default_options\<lparr>opt_lock := Some ''skip.lock''\<rparr>"

definition lock_env :: "u8 list \<Rightarrow> environment" where
  "lock_env content = quiet_env\<lparr>env_lock_fd := 4, env_lock_file := content\<rparr>"

definition lock_state :: "u64 \<Rightarrow> module_data" where
  "lock_state v = init_state\<lparr>lock := Some ''skip.lock'', input_skip := v\<rparr>"

section \<open>Basic facts\<close>

lemma fbind_Inr [simp]: "fbind (Inr x) f = f x"
  by (simp add: fbind_def)

lemma fbind_Inl [simp]: "fbind (Inl e) f = Inl e"
  by (simp add: fbind_def)

lemma fbind_Inr_iff: "fbind r f = Inr v \<longleftrightarrow> (\<exists>x. r = Inr x \<and> f x = Inr v)"
  by (cases r) simp_all

lemma module_init_default: "module_init default_options quiet_env module_zero = Inr init_state"
  by (simp add: module_init_def default_options_def quiet_env_def module_init_lock_def
      module_zero_def init_state_def malloc_def SYNC_BUFFER_SIZE_def TS_PACKET_SIZE_def
      INPUT_BUFFER_SIZE_def)

section \<open>The scan for a PCR\<close>

lemma seek_pcr_188_loop_Some:
  "seek_pcr_188_loop mem e pos = Inr (Some q) \<Longrightarrow>
     \<exists>k. q = pos + k * TS_PACKET_SIZE \<and> q < e \<and> check_pcr mem q = Inr True
        \<and> (\<forall>j<k. check_pcr mem (pos + j * TS_PACKET_SIZE) = Inr False)"
proof (induction mem e pos rule: seek_pcr_188_loop.induct)
  case (1 mem e pos)
  from "1.prems" have lt: "pos < e"
    by (simp split: if_splits)
  from "1.prems" lt obtain c where c: "check_pcr mem pos = Inr c"
    by (cases "check_pcr mem pos") simp_all
  show ?case
  proof (cases c)
    case True
    with "1.prems" lt c have "q = pos" by simp
    with True c lt show ?thesis
      by (intro exI [of _ 0]) simp
  next
    case False
    with "1.prems" lt c have "seek_pcr_188_loop mem e (pos + TS_PACKET_SIZE) = Inr (Some q)"
      by simp
    from "1.IH" [OF lt c False this] obtain k where
      k: "q = pos + TS_PACKET_SIZE + k * TS_PACKET_SIZE" "q < e" "check_pcr mem q = Inr True"
         "\<forall>j<k. check_pcr mem (pos + TS_PACKET_SIZE + j * TS_PACKET_SIZE) = Inr False"
      by blast
    have "\<forall>j<Suc k. check_pcr mem (pos + j * TS_PACKET_SIZE) = Inr False"
    proof (intro allI impI)
      fix j assume "j < Suc k"
      show "check_pcr mem (pos + j * TS_PACKET_SIZE) = Inr False"
      proof (cases j)
        case 0
        with c False show ?thesis by simp
      next
        case (Suc i)
        with \<open>j < Suc k\<close> k(4) show ?thesis by (simp add: add.assoc)
      qed
    qed
    with k(1-3) show ?thesis
      by (intro exI [of _ "Suc k"]) simp
  qed
qed

lemma seek_pcr_192_loop_Some:
  "seek_pcr_192_loop mem e pos = Inr (Some q) \<Longrightarrow>
     \<exists>k. q = pos + k * M2TS_PACKET_SIZE \<and> q < e \<and> check_pcr mem (q + 4) = Inr True
        \<and> (\<forall>j<k. check_pcr mem (pos + j * M2TS_PACKET_SIZE + 4) = Inr False)"
proof (induction mem e pos rule: seek_pcr_192_loop.induct)
  case (1 mem e pos)
  from "1.prems" have lt: "pos < e"
    by (simp split: if_splits)
  from "1.prems" lt obtain c where c: "check_pcr mem (pos + 4) = Inr c"
    by (cases "check_pcr mem (pos + 4)") simp_all
  show ?case
  proof (cases c)
    case True
    with "1.prems" lt c have "q = pos" by simp
    with True c lt show ?thesis
      by (intro exI [of _ 0]) simp
  next
    case False
    with "1.prems" lt c have "seek_pcr_192_loop mem e (pos + M2TS_PACKET_SIZE) = Inr (Some q)"
      by simp
    from "1.IH" [OF lt c False this] obtain k where
      k: "q = pos + M2TS_PACKET_SIZE + k * M2TS_PACKET_SIZE" "q < e"
         "check_pcr mem (q + 4) = Inr True"
         "\<forall>j<k. check_pcr mem (pos + M2TS_PACKET_SIZE + j * M2TS_PACKET_SIZE + 4) = Inr False"
      by blast
    have "\<forall>j<Suc k. check_pcr mem (pos + j * M2TS_PACKET_SIZE + 4) = Inr False"
    proof (intro allI impI)
      fix j assume "j < Suc k"
      show "check_pcr mem (pos + j * M2TS_PACKET_SIZE + 4) = Inr False"
      proof (cases j)
        case 0
        with c False show ?thesis by simp
      next
        case (Suc i)
        with \<open>j < Suc k\<close> k(4) show ?thesis by (simp add: add.assoc)
      qed
    qed
    with k(1-3) show ?thesis
      by (intro exI [of _ "Suc k"]) simp
  qed
qed

lemma seek_pcr_192_loop_None:
  "(\<And>k. pos + k * M2TS_PACKET_SIZE < e \<Longrightarrow> check_pcr mem (pos + k * M2TS_PACKET_SIZE + 4) = Inr False)
   \<Longrightarrow> seek_pcr_192_loop mem e pos = Inr None"
proof (induction mem e pos rule: seek_pcr_192_loop.induct)
  case (1 mem e pos)
  show ?case
  proof (cases "pos < e")
    case False
    then show ?thesis by simp
  next
    case True
    from "1.prems" [of 0] True have c: "check_pcr mem (pos + 4) = Inr False" by simp
    have "seek_pcr_192_loop mem e (pos + M2TS_PACKET_SIZE) = Inr None"
    proof (rule "1.IH" [OF True c])
      show "\<not> False" by simp
    next
      fix k assume "pos + M2TS_PACKET_SIZE + k * M2TS_PACKET_SIZE < e"
      with "1.prems" [of "Suc k"]
      show "check_pcr mem (pos + M2TS_PACKET_SIZE + k * M2TS_PACKET_SIZE + 4) = Inr False"
        by (simp add: add.assoc add.commute add.left_commute)
    qed
    with True c show ?thesis by simp
  qed
qed

section \<open>Facts about opening the file\<close>

lemma open_file_pcr_success:
  "open_file_pcr m = Inr (1, m') \<Longrightarrow> \<exists>p v. input_ptr m = Some p \<and> m' = m\<lparr>pcr := v\<rparr>"
  by (auto simp: open_file_pcr_def fbind_Inr_iff split: option.splits)

lemma open_file_m2ts_Inr:
  "open_file_m2ts file m = Inr m1 \<Longrightarrow>
     \<exists>q. seek_pcr_192 (input_buffer m) 0 (input_end m) = Inr (Some q)
        \<and> input_ptr m1 = Some q \<and> ts_size m1 = int M2TS_PACKET_SIZE
        \<and> input_buffer m1 = input_buffer m \<and> input_skip m1 = input_skip m"
  by (auto simp: open_file_m2ts_def fbind_Inr_iff Let_def add_log_def split: option.splits if_splits)

lemma open_file_probe_success:
  assumes "open_file_probe file m = Inr (1, m')"
  shows "(\<exists>q. seek_pcr_188 (input_buffer m) 0 (input_end m) = Inr (Some q)
            \<and> input_ptr m' = Some q \<and> ts_size m' = int TS_PACKET_SIZE)
         \<or> (\<exists>q. seek_pcr_192 (input_buffer m) 0 (input_end m) = Inr (Some q)
            \<and> input_ptr m' = Some q \<and> ts_size m' = int M2TS_PACKET_SIZE)"
    and "input_buffer m' = input_buffer m"
  using assms
  by (auto simp: open_file_probe_def fbind_Inr_iff split: if_splits
      dest!: open_file_pcr_success open_file_m2ts_Inr)

lemma open_file_stat_frame [simp]:
  "input_size (open_file_stat fdn file m) = input_size m"
  "input_buffer (open_file_stat fdn file m) = input_buffer m"
  "input_end (open_file_stat fdn file m) = input_end m"
  "input_ptr (open_file_stat fdn file m) = input_ptr m"
  "ts_size (open_file_stat fdn file m) = ts_size m"
  "start_time (open_file_stat fdn file m) = start_time m"
  "length_ms (open_file_stat fdn file m) = length_ms m"
  by (simp_all add: open_file_stat_def Let_def add_log_def)

lemma open_file_read_frame [simp]:
  "input_size (snd (open_file_read file m)) = input_size m"
  "input_end (snd (open_file_read file m)) = input_end m"
  "input_ptr (snd (open_file_read file m)) = input_ptr m"
  "input_skip (snd (open_file_read file m)) = input_skip m"
  "ts_size (snd (open_file_read file m)) = ts_size m"
  "start_time (snd (open_file_read file m)) = start_time m"
  "length_ms (snd (open_file_read file m)) = length_ms m"
  "log (snd (open_file_read file m)) = log m"
  by (simp_all add: open_file_read_def Let_def)

lemma calc_pcr_Inr: "ts + 12 \<le> length mem \<Longrightarrow> \<exists>v. calc_pcr mem ts = Inr v"
  by (simp add: calc_pcr_def peek_def Let_def)

section \<open>Facts about the example inputs\<close>

lemma length_ts_file: "length ts_file = 2097152"
  by (simp add: ts_file_def pcr_packet_def)

lemma length_m2ts_plain_file: "length m2ts_plain_file = 2097152"
  by (simp add: m2ts_plain_file_def cell_def)

lemma length_s2_file: "length s2_file = 576"
  by (simp add: s2_file_def cell_def)

lemma init_state_sel:
  "lock init_state = None" "loop init_state = False" "fd init_state = 0"
  "idx_callback init_state = 0" "file_size init_state = 0" "ts_size init_state = 0"
  "start_time init_state = 0" "length_ms init_state = 0" "pause init_state = 0"
  "reposition init_state = False" "sync_chan init_state = []"
  "sync_buffer init_state = replicate 385024 0" "sync_buffer_size init_state = 385024"
  "sync_buffer_count init_state = 0" "sync_buffer_read init_state = 0"
  "sync_buffer_write init_state = 0" "sync_buffer_overflow init_state = 0"
  "pcr init_state = 0" "input_buffer init_state = replicate 2097152 0"
  "input_ptr init_state = Some 0" "input_end init_state = 2097152"
  "input_size init_state = 2097152" "input_skip init_state = 0" "log init_state = []"
  "eof_calls init_state = 0"
  by (simp_all add: init_state_def module_zero_def)

lemma read_full_window:
  assumes "length file = 2097152"
  shows "open_file_read file (open_file_stat 3 file init_state)
           = (2097152, init_state\<lparr>fd := 3, file_size := 2097152, input_buffer := file\<rparr>)"
  using assms
  by (simp add: open_file_read_def open_file_stat_def init_state_sel pread_def
      store_at_def Let_def)

lemma ts_file_nth:
  "ts_file ! 0 = 0x47" "ts_file ! 188 = 0x47" "ts_file ! 191 = 0x20" "ts_file ! 192 = 1"
  "ts_file ! 193 = 0x10" "ts_file ! 3 = 0x20" "ts_file ! 4 = 1" "ts_file ! 5 = 0x10"
  by (simp_all add: ts_file_def pcr_packet_def nth_append)

lemma ts_file_tail: "188 < i \<Longrightarrow> i < 376 \<Longrightarrow> i \<notin> {191, 192, 193} \<Longrightarrow> ts_file ! i = 0"
  by (simp add: ts_file_def pcr_packet_def nth_append nth_Cons')

lemma check_pcr_ts_file: "check_pcr ts_file 0 = Inr True" "check_pcr ts_file 188 = Inr True"
  by (simp_all add: check_pcr_def peek_def length_ts_file ts_file_nth)

lemma calc_pcr_ts_file: "calc_pcr ts_file 188 = Inr 0"
  by (simp add: calc_pcr_def peek_def length_ts_file ts_file_tail)

lemma open_ts_file: "open_file 3 ts_file init_state = Inr (1, ts_file_opened)"
  by (simp add: open_file_def read_full_window [OF length_ts_file] open_file_probe_def peek_def
      length_ts_file ts_file_nth TS_PACKET_SIZE_def seek_pcr_188_def check_pcr_ts_file
      open_file_pcr_def calc_pcr_ts_file init_state_sel Let_def ts_file_opened_def)

lemma check_pcr_no_adaptation:
  "ts + 3 < length mem \<Longrightarrow> mem ! (ts + 3) AND 0x20 = 0 \<Longrightarrow> check_pcr mem ts = Inr False"
  by (simp add: check_pcr_def peek_def)

lemma m2ts_plain_file_zero:
  "i < 2097152 \<Longrightarrow> i \<noteq> 4 \<Longrightarrow> i \<noteq> 196 \<Longrightarrow> m2ts_plain_file ! i = 0"
  by (simp add: m2ts_plain_file_def cell_def nth_append nth_Cons')

lemma m2ts_plain_file_sync: "m2ts_plain_file ! 4 = 0x47" "m2ts_plain_file ! 196 = 0x47"
  by (simp_all add: m2ts_plain_file_def cell_def nth_append)

lemma cell_bound: "k * 192 < 2097152 \<Longrightarrow> k * 192 + 7 < (2097152 :: nat)"
  by presburger

section \<open>Facts about the ring\<close>

lemma sync_size_numeral: "(of_nat SYNC_BUFFER_SIZE :: u32) = 385024" "SYNC_BUFFER_SIZE = 385024"
  by (simp_all add: SYNC_BUFFER_SIZE_def TS_PACKET_SIZE_def)

lemma ring_full_iff:
  "ring_ok m \<Longrightarrow> sync_buffer_size m \<le> sync_buffer_count m \<longleftrightarrow> unat (sync_buffer_count m) = SYNC_BUFFER_SIZE"
  by (auto simp: ring_ok_def word_le_nat_alt sync_size_numeral)

lemma aligned_room:
  assumes "TS_PACKET_SIZE dvd n" "n < SYNC_BUFFER_SIZE"
  shows "n + TS_PACKET_SIZE \<le> SYNC_BUFFER_SIZE"
proof -
  from assms(1) obtain k where k: "n = TS_PACKET_SIZE * k" by (auto simp: dvd_def)
  with assms(2) have "k < 2048" by (simp add: SYNC_BUFFER_SIZE_def TS_PACKET_SIZE_def)
  then have "k + 1 \<le> 2048" by simp
  then have "TS_PACKET_SIZE * (k + 1) \<le> TS_PACKET_SIZE * 2048" by (rule mult_le_mono2)
  with k show ?thesis by (simp add: SYNC_BUFFER_SIZE_def)
qed

lemma unat_add_packet:
  "unat w + TS_PACKET_SIZE \<le> SYNC_BUFFER_SIZE \<Longrightarrow>
     unat (w + of_nat TS_PACKET_SIZE :: u32) = unat w + TS_PACKET_SIZE"
  by (simp add: unat_word_ariths TS_PACKET_SIZE_def SYNC_BUFFER_SIZE_def)

lemma unat_sub_packet:
  "TS_PACKET_SIZE \<le> unat w \<Longrightarrow> unat (w - of_nat TS_PACKET_SIZE :: u32) = unat w - TS_PACKET_SIZE"
  by (simp add: unat_sub word_le_nat_alt TS_PACKET_SIZE_def)

lemma advance_index:
  assumes "TS_PACKET_SIZE dvd unat (w :: u32)" "unat w < SYNC_BUFFER_SIZE"
  defines "w' \<equiv> (if (of_nat SYNC_BUFFER_SIZE :: u32) \<le> w + of_nat TS_PACKET_SIZE then 0
                  else w + of_nat TS_PACKET_SIZE)"
  shows "unat w' = (unat w + TS_PACKET_SIZE) mod SYNC_BUFFER_SIZE
         \<and> unat w' < SYNC_BUFFER_SIZE \<and> TS_PACKET_SIZE dvd unat w'"
proof -
  have room: "unat w + TS_PACKET_SIZE \<le> SYNC_BUFFER_SIZE"
    using assms(1,2) by (rule aligned_room)
  then have u: "unat (w + of_nat TS_PACKET_SIZE) = unat w + TS_PACKET_SIZE"
    by (rule unat_add_packet)
  have le: "(of_nat SYNC_BUFFER_SIZE :: u32) \<le> w + of_nat TS_PACKET_SIZE
              \<longleftrightarrow> SYNC_BUFFER_SIZE \<le> unat w + TS_PACKET_SIZE"
    by (simp add: word_le_nat_alt u sync_size_numeral)
  show ?thesis
  proof (cases "SYNC_BUFFER_SIZE \<le> unat w + TS_PACKET_SIZE")
    case True
    with room have "unat w + TS_PACKET_SIZE = SYNC_BUFFER_SIZE" by simp
    moreover from True le have "w' = 0" by (simp only: w'_def if_True)
    ultimately show ?thesis by (simp add: sync_size_numeral)
  next
    case False
    with le have "w' = w + of_nat TS_PACKET_SIZE" by (simp only: w'_def if_False)
    with False u assms(1) show ?thesis by simp
  qed
qed

lemma store_at_length:
  "i + length d \<le> length mem \<Longrightarrow> length (store_at mem i d) = length mem"
  by (simp add: store_at_def)

lemma store_at_parts:
  assumes "i + length d \<le> length mem"
  shows "take (length d) (drop i (store_at mem i d)) = d"
    and "take i (store_at mem i d) = take i mem"
    and "drop (i + length d) (store_at mem i d) = drop (i + length d) mem"
  using assms by (simp_all add: store_at_def)

lemma signals_pending_snoc:
  "signals_pending (m\<lparr>sync_chan := sync_chan m @ [b]\<rparr>)
     = (if b = 0xFF then signals_pending m else Suc (signals_pending m))"
  by (simp add: signals_pending_def)

lemma sync_queue_push_accept:
  assumes ok: "ring_ok m" and pkt: "TS_PACKET_SIZE \<le> length pkt"
    and room: "\<not> sync_buffer_size m \<le> sync_buffer_count m"
  defines "w \<equiv> unat (sync_buffer_write m)"
  shows "\<exists>m'. sync_queue_push True (Some pkt) m = Inr m'
           \<and> take TS_PACKET_SIZE (drop w (sync_buffer m')) = take TS_PACKET_SIZE pkt
           \<and> take w (sync_buffer m') = take w (sync_buffer m)
           \<and> drop (w + TS_PACKET_SIZE) (sync_buffer m') = drop (w + TS_PACKET_SIZE) (sync_buffer m)
           \<and> unat (sync_buffer_write m') = (w + TS_PACKET_SIZE) mod SYNC_BUFFER_SIZE
           \<and> unat (sync_buffer_count m') = unat (sync_buffer_count m) + TS_PACKET_SIZE
           \<and> sync_chan m' = sync_chan m @ [0]
           \<and> sync_buffer_overflow m' = 0
           \<and> sync_buffer_read m' = sync_buffer_read m
           \<and> log m' = log m @ (if sync_buffer_overflow m = 0 then []
                else [Error_count ''sync buffer overflow. dropped %d packets''
                        (sync_buffer_overflow m)])
           \<and> ring_ok m'"
proof -
  from ok have size: "sync_buffer_size m = of_nat SYNC_BUFFER_SIZE"
    and len: "length (sync_buffer m) = SYNC_BUFFER_SIZE"
    and wlt: "w < SYNC_BUFFER_SIZE" and wdvd: "TS_PACKET_SIZE dvd w"
    and rlt: "unat (sync_buffer_read m) < SYNC_BUFFER_SIZE"
    and rdvd: "TS_PACKET_SIZE dvd unat (sync_buffer_read m)"
    and cnt: "unat (sync_buffer_count m) = TS_PACKET_SIZE * signals_pending m"
    by (simp_all add: ring_ok_def w_def)
  from room ok have clt: "unat (sync_buffer_count m) < SYNC_BUFFER_SIZE"
    by (simp add: ring_ok_def word_le_nat_alt sync_size_numeral)
  have croom: "unat (sync_buffer_count m) + TS_PACKET_SIZE \<le> SYNC_BUFFER_SIZE"
    using cnt clt by (intro aligned_room) simp_all
  have wroom: "w + TS_PACKET_SIZE \<le> SYNC_BUFFER_SIZE"
    using wdvd wlt by (rule aligned_room)
  have cu: "unat (sync_buffer_count m + of_nat TS_PACKET_SIZE) = unat (sync_buffer_count m) + TS_PACKET_SIZE"
    using croom by (rule unat_add_packet)
  define w' :: u32 where
    "w' = (if (of_nat SYNC_BUFFER_SIZE :: u32) \<le> sync_buffer_write m + of_nat TS_PACKET_SIZE
           then 0 else sync_buffer_write m + of_nat TS_PACKET_SIZE)"
  have "unat w' = (w + TS_PACKET_SIZE) mod SYNC_BUFFER_SIZE
          \<and> unat w' < SYNC_BUFFER_SIZE \<and> TS_PACKET_SIZE dvd unat w'"
    unfolding w'_def w_def
    by (rule advance_index [OF wdvd [unfolded w_def] wlt [unfolded w_def]])
  then have idx: "unat w' = (w + TS_PACKET_SIZE) mod SYNC_BUFFER_SIZE"
      "unat w' < SYNC_BUFFER_SIZE" "TS_PACKET_SIZE dvd unat w'"
    by blast+
  have tk: "length (take TS_PACKET_SIZE pkt) = TS_PACKET_SIZE"
    using pkt by simp
  have fit: "w + length (take TS_PACKET_SIZE pkt) \<le> length (sync_buffer m)"
    using wroom len tk by simp
  define buf' where "buf' = store_at (sync_buffer m) w (take TS_PACKET_SIZE pkt)"
  have parts: "take TS_PACKET_SIZE (drop w buf') = take TS_PACKET_SIZE pkt"
      "take w buf' = take w (sync_buffer m)"
      "drop (w + TS_PACKET_SIZE) buf' = drop (w + TS_PACKET_SIZE) (sync_buffer m)"
      "length buf' = SYNC_BUFFER_SIZE"
    using store_at_parts [OF fit] store_at_length [OF fit] len
    by (simp_all only: buf'_def tk)
  define m' where
    "m' = m\<lparr>log := log m @ (if sync_buffer_overflow m = 0 then []
                else [Error_count ''sync buffer overflow. dropped %d packets''
                        (sync_buffer_overflow m)]),
            sync_buffer_overflow := 0, sync_buffer := buf', sync_buffer_write := w',
            sync_buffer_count := sync_buffer_count m + of_nat TS_PACKET_SIZE,
            sync_chan := sync_chan m @ [0]\<rparr>"
  have eq: "sync_queue_push True (Some pkt) m = Inr m'"
    using room pkt wroom len
    by (simp add: sync_queue_push_def Let_def add_log_def m'_def buf'_def w'_def size
        w_def [symmetric])
  have ok': "ring_ok m'"
    using idx parts(4) cu cnt croom rlt rdvd
    by (simp add: ring_ok_def m'_def size signals_pending_def)
  show ?thesis
    using eq ok' idx(1) parts(1-3) cu
    by (simp add: m'_def)
qed

lemma sync_queue_push_drop:
  assumes "sync_buffer_size m \<le> sync_buffer_count m"
  shows "sync_queue_push sent (Some pkt) m
           = Inr (m\<lparr>sync_buffer_overflow := sync_buffer_overflow m + 1\<rparr>)"
  using assms by (simp add: sync_queue_push_def)

lemma ring_ok_drop:
  "ring_ok m \<Longrightarrow> ring_ok (m\<lparr>sync_buffer_overflow := v\<rparr>)"
  by (simp add: ring_ok_def signals_pending_def)

lemma sync_queue_push_exit_ok:
  "ring_ok m \<Longrightarrow> \<exists>m'. sync_queue_push True None m = Inr m' \<and> ring_ok m'"
  by (simp add: sync_queue_push_def ring_ok_def signals_pending_def)

lemma sync_queue_push_ring_ok:
  assumes "ring_ok m" "sync_queue_push True ts m = Inr m'"
  shows "ring_ok m'"
proof (cases ts)
  case None
  with assms sync_queue_push_exit_ok [OF assms(1)] show ?thesis by auto
next
  case (Some pkt)
  show ?thesis
  proof (cases "sync_buffer_size m \<le> sync_buffer_count m")
    case True
    with assms Some show ?thesis
      by (auto simp: sync_queue_push_drop intro: ring_ok_drop)
  next
    case False
    from assms(2) Some False have "TS_PACKET_SIZE \<le> length pkt"
      by (auto simp: sync_queue_push_def Let_def split: if_splits)
    from sync_queue_push_accept [OF assms(1) this False] assms(2) Some show ?thesis
      by auto
  qed
qed

lemma sync_queue_pop_ring_ok:
  assumes ok: "ring_ok m" and pop: "sync_queue_pop True m = Some (Inr r)"
  shows "ring_ok (snd r)"
proof -
  from pop obtain cmd rest where ch: "sync_chan m = cmd # rest"
    by (cases "sync_chan m") (simp_all add: sync_queue_pop_def)
  show ?thesis
  proof (cases "cmd = 0xFF")
    case True
    with pop ch ok show ?thesis
      by (auto simp: sync_queue_pop_def Let_def ring_ok_def signals_pending_def)
  next
    case False
    from ok have size: "sync_buffer_size m = of_nat SYNC_BUFFER_SIZE"
      and rlt: "unat (sync_buffer_read m) < SYNC_BUFFER_SIZE"
      and rdvd: "TS_PACKET_SIZE dvd unat (sync_buffer_read m)"
      and cnt: "unat (sync_buffer_count m) = TS_PACKET_SIZE * signals_pending m"
      by (simp_all add: ring_ok_def)
    define r' :: u32 where
      "r' = (if (of_nat SYNC_BUFFER_SIZE :: u32) \<le> sync_buffer_read m + of_nat TS_PACKET_SIZE
             then 0 else sync_buffer_read m + of_nat TS_PACKET_SIZE)"
    have "unat r' = (unat (sync_buffer_read m) + TS_PACKET_SIZE) mod SYNC_BUFFER_SIZE
            \<and> unat r' < SYNC_BUFFER_SIZE \<and> TS_PACKET_SIZE dvd unat r'"
      unfolding r'_def by (rule advance_index [OF rdvd rlt])
    then have idx: "unat r' < SYNC_BUFFER_SIZE" "TS_PACKET_SIZE dvd unat r'"
      by blast+
    from ch False have sp: "signals_pending m = Suc (length (filter (\<lambda>b. b \<noteq> 0xFF) rest))"
      by (simp add: signals_pending_def)
    with cnt have ge: "TS_PACKET_SIZE \<le> unat (sync_buffer_count m)" by simp
    have cu: "unat (sync_buffer_count m - of_nat TS_PACKET_SIZE)
                = unat (sync_buffer_count m) - TS_PACKET_SIZE"
      using ge by (rule unat_sub_packet)
    from pop ch False have
      "snd r = m\<lparr>sync_chan := rest, sync_buffer_read := r',
                  sync_buffer_count := sync_buffer_count m - of_nat TS_PACKET_SIZE\<rparr>"
      by (auto simp: sync_queue_pop_def Let_def r'_def size split: if_splits)
    with ok idx cu cnt sp show ?thesis
      by (simp add: ring_ok_def signals_pending_def)
  qed
qed

lemma queue_run_ring_ok:
  "ring_ok m \<Longrightarrow> queue_run ops m = Some m' \<Longrightarrow> ring_ok m'"
proof (induction ops arbitrary: m)
  case Nil
  then show ?case by simp
next
  case (Cons op ops)
  show ?case
  proof (cases op)
    case (Push ts)
    with Cons.prems(2) obtain m1 where
      m1: "sync_queue_push True ts m = Inr m1" "queue_run ops m1 = Some m'"
      by (auto split: sum.splits)
    from sync_queue_push_ring_ok [OF Cons.prems(1) m1(1)] m1(2) show ?thesis
      by (rule Cons.IH)
  next
    case Pop
    with Cons.prems(2) obtain r where
      r: "sync_queue_pop True m = Some (Inr r)" "queue_run ops (snd r) = Some m'"
      by (auto split: option.splits sum.splits)
    from sync_queue_pop_ring_ok [OF Cons.prems(1) r(1)] r(2) show ?thesis
      by (rule Cons.IH)
  qed
qed


lemma queue_run_drops:
  "sync_buffer_size m \<le> sync_buffer_count m \<Longrightarrow>
     queue_run (replicate n (Push (Some pkt))) m
       = Some (m\<lparr>sync_buffer_overflow := sync_buffer_overflow m + of_nat n\<rparr>)"
proof (induction n arbitrary: m)
  case 0
  then show ?case by simp
next
  case (Suc n)
  let ?m1 = "m\<lparr>sync_buffer_overflow := sync_buffer_overflow m + 1\<rparr>"
  from Suc.prems have full: "sync_buffer_size ?m1 \<le> sync_buffer_count ?m1" by simp
  from Suc.prems Suc.IH [OF full] show ?case
    by (simp add: sync_queue_push_drop add.assoc)
qed

lemma ring_ok_init: "ring_ok init_state"
  by (simp add: ring_ok_def init_state_sel signals_pending_def SYNC_BUFFER_SIZE_def
      TS_PACKET_SIZE_def)

lemma ring_ok_full: "ring_ok full_state"
  by (simp add: ring_ok_def full_state_def init_state_sel signals_pending_def
      SYNC_BUFFER_SIZE_def TS_PACKET_SIZE_def)

section \<open>The method position\<close>

text \<open>
  C10: calling \<open>position()\<close> with a nil argument returns 0 and leaves the whole
  state as it was; in particular the reposition flag is not raised and the file
  offset \<open>input_skip\<close> is not modified.
\<close>

theorem position_nil_unchanged: "method_position None m = Inr (0, m)"
  by (simp add: method_position_def)

section \<open>The producer thread\<close>

text \<open>
  C3: when the \<^verbatim>\<open>pread\<close> that loads the buffer again returns fewer than
  \<open>input_size\<close> bytes, then with \<open>loop\<close> set the file offset becomes 0, the
  reposition flag is raised, the round ends with \<^verbatim>\<open>continue\<close> and nothing is
  sent on the signal channel; without \<open>loop\<close> the one byte \<open>0xFF\<close> is
  sent (the socket taking it), the ring keeps its payloads, indices and count,
  and the loop of the thread is left, after which the file is closed.
\<close>

theorem refill_short_read:
  assumes "input_ptr m = Some p"
    and "fst (pread file (input_size m) (input_skip m + of_nat p)) \<noteq> int (input_size m)"
    and "sent"
  shows "\<exists>m'. thread_loop_refill sent file m = Inr (if loop m then Continue else Break, m')
           \<and> sync_buffer m' = sync_buffer m
           \<and> sync_buffer_count m' = sync_buffer_count m
           \<and> sync_buffer_write m' = sync_buffer_write m
           \<and> sync_buffer_read m' = sync_buffer_read m
           \<and> (if loop m
               then input_skip m' = 0 \<and> reposition m' \<and> sync_chan m' = sync_chan m
               else sync_chan m' = sync_chan m @ [0xFF] \<and> fd (thread_loop_exit m') \<le> 0)"
  using assms
  by (simp add: thread_loop_refill_def sync_queue_push_def Let_def thread_loop_exit_def)

theorem refill_short_read_witness:
  "input_ptr init_state = Some 0
   \<and> fst (pread [] (input_size init_state) (input_skip init_state + of_nat 0))
       \<noteq> int (input_size init_state)
   \<and> (\<exists>m'. thread_loop_refill True [] init_state
              = Inr (if loop init_state then Continue else Break, m')
         \<and> sync_buffer m' = sync_buffer init_state
         \<and> sync_buffer_count m' = sync_buffer_count init_state
         \<and> sync_buffer_write m' = sync_buffer_write init_state
         \<and> sync_buffer_read m' = sync_buffer_read init_state
         \<and> (if loop init_state
             then input_skip m' = 0 \<and> reposition m' \<and> sync_chan m' = sync_chan init_state
             else sync_chan m' = sync_chan init_state @ [0xFF] \<and> fd (thread_loop_exit m') \<le> 0))"
proof -
  have p: "input_ptr init_state = Some 0"
    by (simp add: init_state_def)
  have s: "fst (pread [] (input_size init_state) (input_skip init_state + of_nat 0))
             \<noteq> int (input_size init_state)"
    by (simp add: init_state_def module_zero_def pread_def)
  from refill_short_read [OF p s, of True] p s show ?thesis
    by simp
qed

text \<open>
  C5 (as amended): when the clock reading at the end of a block is smaller than
  the reading stored at the start, the loop logs "timetravel detected" and
  stores \<open>-1000000\<close> in \<open>total_sync_diff\<close>; the range check that follows in the
  same round finds the value below \<open>-100\<close>, logs "wrong syncing time", takes
  a new start reading and sets \<open>block_time_total\<close>, \<open>total_sync_diff\<close> and
  \<open>pause_total\<close> to 0. The next block therefore starts with a difference of 0.
\<close>

theorem timetravel_resets_sync:
  assumes "time_sync_e < time_sync_b t"
  shows "stream_sync_measure time_sync_e measured (t, m)
           = (t\<lparr>total_sync_diff := - 1000000\<rparr>, add_log (Warning ''timetravel detected'') m)
       \<and> thread_loop_stream_sync time_sync_e measured now (t, m)
           = (t\<lparr>time_sync_b := now, block_time_total := 0, total_sync_diff := 0, pause_total := 0\<rparr>,
              add_log (Warning_ms ''wrong syncing time: %.2fms. reset time values'' (- 1000000))
                (add_log (Warning ''timetravel detected'') m))"
  using assms
  by (simp add: thread_loop_stream_sync_def stream_sync_measure_def stream_sync_reset_def)

theorem timetravel_resets_sync_witness:
  "(5 :: u64) < time_sync_b example_pacing
   \<and> stream_sync_measure 5 0 (example_pacing, init_state)
       = (example_pacing\<lparr>total_sync_diff := - 1000000\<rparr>,
          add_log (Warning ''timetravel detected'') init_state)
   \<and> thread_loop_stream_sync 5 0 7 (example_pacing, init_state)
       = (example_pacing\<lparr>time_sync_b := 7, block_time_total := 0, total_sync_diff := 0,
            pause_total := 0\<rparr>,
          add_log (Warning_ms ''wrong syncing time: %.2fms. reset time values'' (- 1000000))
            (add_log (Warning ''timetravel detected'') init_state))"
proof -
  have h: "(5 :: u64) < time_sync_b example_pacing"
    by (simp add: example_pacing_def)
  from timetravel_resets_sync [OF h] h show ?thesis
    by simp
qed

text \<open>
  The claim as the specification words it, a difference of \<open>-1000\<close> left for
  the next block, fails: the value stored is \<open>-1000000\<close>, and the round ends
  with 0.
\<close>

theorem timetravel_counterexample:
  "(5 :: u64) < time_sync_b example_pacing
   \<and> total_sync_diff (fst (stream_sync_measure 5 0 (example_pacing, init_state))) \<noteq> - 1000
   \<and> total_sync_diff (fst (thread_loop_stream_sync 5 0 7 (example_pacing, init_state))) \<noteq> - 1000"
  by (simp add: thread_loop_stream_sync_def stream_sync_measure_def stream_sync_reset_def
      example_pacing_def)

section \<open>The probe\<close>

text \<open>
  C6 (as amended): when the window was read in full and \<^verbatim>\<open>open_file\<close> returns
  1, the cursor is at the first packet after the first packet of the window for
  which \<^verbatim>\<open>check_pcr\<close> holds, the test being made at offset 0 of the packet for
  TS and at offset 4 for M2TS. The packet at the start of the buffer is not
  tested: the scan starts one packet further.
\<close>

theorem probe_cursor_after_first_packet:
  assumes "open_file fdn file m = Inr (1, m')"
    and "fst (open_file_read file (open_file_stat fdn file m)) = int (input_size m)"
  shows "\<exists>k. 1 \<le> k
           \<and> (ts_size m' = int TS_PACKET_SIZE \<or> ts_size m' = int M2TS_PACKET_SIZE)
           \<and> input_ptr m' = Some (k * nat (ts_size m'))
           \<and> k * nat (ts_size m') < input_end m
           \<and> input_buffer m' = probe_window fdn file m
           \<and> packet_has_pcr (ts_size m') (probe_window fdn file m) k = Inr True
           \<and> (\<forall>j. 1 \<le> j \<and> j < k \<longrightarrow>
                 packet_has_pcr (ts_size m') (probe_window fdn file m) j = Inr False)"
proof -
  let ?m3 = "snd (open_file_read file (open_file_stat fdn file m))"
  from assms have probe: "open_file_probe file ?m3 = Inr (1, m')"
    by (simp add: open_file_def Let_def split: if_splits)
  have buf: "input_buffer m' = probe_window fdn file m"
    using open_file_probe_success(2) [OF probe] by (simp add: probe_window_def)
  from open_file_probe_success(1) [OF probe]
  consider (ts) q where "seek_pcr_188 (input_buffer ?m3) 0 (input_end m) = Inr (Some q)"
      "input_ptr m' = Some q" "ts_size m' = int TS_PACKET_SIZE"
    | (m2ts) q where "seek_pcr_192 (input_buffer ?m3) 0 (input_end m) = Inr (Some q)"
      "input_ptr m' = Some q" "ts_size m' = int M2TS_PACKET_SIZE"
    by auto
  then show ?thesis
  proof cases
    case ts
    from seek_pcr_188_loop_Some [OF ts(1) [unfolded seek_pcr_188_def]]
    obtain k where k: "q = 0 + TS_PACKET_SIZE + k * TS_PACKET_SIZE" "q < input_end m"
        "check_pcr (input_buffer ?m3) q = Inr True"
        "\<forall>j<k. check_pcr (input_buffer ?m3) (0 + TS_PACKET_SIZE + j * TS_PACKET_SIZE) = Inr False"
      by blast
    have "\<forall>j. 1 \<le> j \<and> j < Suc k \<longrightarrow>
            packet_has_pcr (ts_size m') (probe_window fdn file m) j = Inr False"
    proof (intro allI impI)
      fix j assume j: "1 \<le> j \<and> j < Suc k"
      then obtain i where "j = Suc i" "i < k" by (cases j) auto
      with k(4) ts(3) show "packet_has_pcr (ts_size m') (probe_window fdn file m) j = Inr False"
        by (simp add: packet_has_pcr_def probe_window_def add.commute)
    qed
    with k(1-3) ts(2,3) buf show ?thesis
      by (intro exI [of _ "Suc k"]) (simp add: packet_has_pcr_def probe_window_def add.commute)
  next
    case m2ts
    from seek_pcr_192_loop_Some [OF m2ts(1) [unfolded seek_pcr_192_def]]
    obtain k where k: "q = 0 + M2TS_PACKET_SIZE + k * M2TS_PACKET_SIZE" "q < input_end m"
        "check_pcr (input_buffer ?m3) (q + 4) = Inr True"
        "\<forall>j<k. check_pcr (input_buffer ?m3) (0 + M2TS_PACKET_SIZE + j * M2TS_PACKET_SIZE + 4)
                 = Inr False"
      by blast
    have ne: "int M2TS_PACKET_SIZE \<noteq> int TS_PACKET_SIZE"
      by (simp add: M2TS_PACKET_SIZE_def TS_PACKET_SIZE_def)
    have "\<forall>j. 1 \<le> j \<and> j < Suc k \<longrightarrow>
            packet_has_pcr (ts_size m') (probe_window fdn file m) j = Inr False"
    proof (intro allI impI)
      fix j assume j: "1 \<le> j \<and> j < Suc k"
      then obtain i where "j = Suc i" "i < k" by (cases j) auto
      with k(4) m2ts(3) ne show "packet_has_pcr (ts_size m') (probe_window fdn file m) j = Inr False"
        by (simp add: packet_has_pcr_def probe_window_def add.commute)
    qed
    with k(1-3) m2ts(2,3) buf ne show ?thesis
      by (intro exI [of _ "Suc k"]) (simp add: packet_has_pcr_def probe_window_def add.commute)
  qed
qed


theorem probe_cursor_after_first_packet_witness:
  "open_file 3 ts_file init_state = Inr (1, ts_file_opened)
   \<and> fst (open_file_read ts_file (open_file_stat 3 ts_file init_state)) = int (input_size init_state)
   \<and> (\<exists>k. 1 \<le> k
         \<and> (ts_size ts_file_opened = int TS_PACKET_SIZE
              \<or> ts_size ts_file_opened = int M2TS_PACKET_SIZE)
         \<and> input_ptr ts_file_opened = Some (k * nat (ts_size ts_file_opened))
         \<and> k * nat (ts_size ts_file_opened) < input_end init_state
         \<and> input_buffer ts_file_opened = probe_window 3 ts_file init_state
         \<and> packet_has_pcr (ts_size ts_file_opened) (probe_window 3 ts_file init_state) k = Inr True)"
proof -
  have r: "fst (open_file_read ts_file (open_file_stat 3 ts_file init_state))
             = int (input_size init_state)"
    by (simp add: read_full_window [OF length_ts_file] init_state_sel)
  from probe_cursor_after_first_packet [OF open_ts_file r] open_ts_file r show ?thesis
    by blast
qed

text \<open>
  The claim as the specification words it, the first packet of the window with
  a PCR counted from the very first packet, fails: in a transport stream whose
  first two packets both carry a PCR the window is read in full, packet 0
  passes the test, and the cursor is put on packet 1, at offset 188.
\<close>

theorem probe_skips_first_packet_counterexample:
  "fst (open_file_read ts_file (open_file_stat 3 ts_file init_state)) = int (input_size init_state)
   \<and> packet_has_pcr 188 (probe_window 3 ts_file init_state) 0 = Inr True
   \<and> probe_outcome (open_file 3 ts_file init_state) = Some (1, 188, 0, 0, Some 188)"
  by (simp add: open_ts_file ts_file_opened_def probe_outcome_def packet_has_pcr_def probe_window_def
      read_full_window [OF length_ts_file] check_pcr_ts_file init_state_sel TS_PACKET_SIZE_def)

text \<open>
  C8: in \<^verbatim>\<open>open_file\<close>, for a window taken for M2TS, the start time is read
  through the pointer the scan returns before that pointer is compared with
  \<^verbatim>\<open>NULL\<close>. So whenever the window was read in full, is taken for M2TS and no
  cell after the first one passes \<^verbatim>\<open>check_pcr\<close>, the call dereferences a null
  pointer and never reaches the branch that logs "first PCR is not found".
\<close>

theorem m2ts_without_pcr_null_dereference:
  assumes "0 < fdn"
    and "fst (open_file_read file (open_file_stat fdn file m)) = int (input_size m)"
    and "m2ts_window (probe_window fdn file m)"
    and "\<forall>k. 1 \<le> k \<and> k * M2TS_PACKET_SIZE < input_end m \<longrightarrow>
           packet_has_pcr (int M2TS_PACKET_SIZE) (probe_window fdn file m) k = Inr False"
  shows "open_file fdn file m = Inl Null_dereference"
proof -
  let ?m3 = "snd (open_file_read file (open_file_stat fdn file m))"
  have ne: "int M2TS_PACKET_SIZE \<noteq> int TS_PACKET_SIZE"
    by (simp add: M2TS_PACKET_SIZE_def TS_PACKET_SIZE_def)
  have "seek_pcr_192_loop (input_buffer ?m3) (input_end m) (0 + M2TS_PACKET_SIZE) = Inr None"
  proof (rule seek_pcr_192_loop_None)
    fix k assume "0 + M2TS_PACKET_SIZE + k * M2TS_PACKET_SIZE < input_end m"
    with assms(4) [rule_format, of "Suc k"] ne
    show "check_pcr (input_buffer ?m3) (0 + M2TS_PACKET_SIZE + k * M2TS_PACKET_SIZE + 4) = Inr False"
      by (simp add: packet_has_pcr_def probe_window_def add.commute)
  qed
  then have seek: "seek_pcr_192 (input_buffer ?m3) 0 (input_end ?m3) = Inr None"
    by (simp add: seek_pcr_192_def)
  then have m2: "open_file_m2ts file ?m3 = Inl Null_dereference"
    by (simp add: open_file_m2ts_def)
  from assms(3) have "open_file_probe file ?m3 = Inl Null_dereference"
    by (auto simp: open_file_probe_def m2ts_window_def probe_window_def peek_def m2
        M2TS_PACKET_SIZE_def TS_PACKET_SIZE_def)
  with assms(1,2) show ?thesis
    by (simp add: open_file_def Let_def)
qed

theorem m2ts_without_pcr_null_dereference_witness:
  "(0 :: int) < 3
   \<and> fst (open_file_read m2ts_plain_file (open_file_stat 3 m2ts_plain_file init_state))
       = int (input_size init_state)
   \<and> m2ts_window (probe_window 3 m2ts_plain_file init_state)
   \<and> open_file 3 m2ts_plain_file init_state = Inl Null_dereference"
proof -
  have w: "probe_window 3 m2ts_plain_file init_state = m2ts_plain_file"
    by (simp add: probe_window_def read_full_window [OF length_m2ts_plain_file])
  have r: "fst (open_file_read m2ts_plain_file (open_file_stat 3 m2ts_plain_file init_state))
             = int (input_size init_state)"
    by (simp add: read_full_window [OF length_m2ts_plain_file] init_state_sel)
  have c: "m2ts_window (probe_window 3 m2ts_plain_file init_state)"
    by (simp add: w m2ts_window_def length_m2ts_plain_file m2ts_plain_file_sync
        m2ts_plain_file_zero M2TS_PACKET_SIZE_def TS_PACKET_SIZE_def)
  have n: "\<forall>k. 1 \<le> k \<and> k * M2TS_PACKET_SIZE < input_end init_state \<longrightarrow>
             packet_has_pcr (int M2TS_PACKET_SIZE) (probe_window 3 m2ts_plain_file init_state) k
               = Inr False"
  proof (intro allI impI)
    fix k assume k: "1 \<le> k \<and> k * M2TS_PACKET_SIZE < input_end init_state"
    then have b: "k * 192 + 4 + 3 < 2097152"
      using cell_bound [of k] by (simp add: M2TS_PACKET_SIZE_def init_state_sel)
    from k have "k * 192 + 4 + 3 \<noteq> 4" "k * 192 + 4 + 3 \<noteq> 196" by presburger+
    with b have "m2ts_plain_file ! (k * 192 + 4 + 3) = 0"
      by (intro m2ts_plain_file_zero)
    with b have "check_pcr m2ts_plain_file (k * 192 + 4) = Inr False"
      by (intro check_pcr_no_adaptation) (simp_all add: length_m2ts_plain_file)
    then show "packet_has_pcr (int M2TS_PACKET_SIZE) (probe_window 3 m2ts_plain_file init_state) k
               = Inr False"
      by (simp add: w packet_has_pcr_def M2TS_PACKET_SIZE_def TS_PACKET_SIZE_def)
  qed
  have p: "(0 :: int) < 3" by simp
  from m2ts_without_pcr_null_dereference [OF p r c n] r c show ?thesis
    by simp
qed

text \<open>
  What \<^verbatim>\<open>open_file\<close> does with a file shorter than the input window, the
  cursor not being null and having 16 bytes of buffer after it: it logs the
  warning "file is too small" and does not look at the bytes read. The packet
  size, the start time, the length and the cursor keep the values they had
  before the call, the PCR is computed from the packet at the cursor, and the
  call returns 1.
\<close>

lemma short_file_not_probed:
  assumes "0 < fdn" and "length file < input_size m"
    and "length (input_buffer m) = input_size m"
    and "input_ptr m = Some p" and "p + 16 \<le> input_size m"
  shows "\<exists>m'. open_file fdn file m = Inr (1, m')
           \<and> ts_size m' = ts_size m \<and> start_time m' = start_time m
           \<and> length_ms m' = length_ms m \<and> input_ptr m' = input_ptr m
           \<and> log m' = log (open_file_stat fdn file m) @ [Warning ''file is too small'']
           \<and> calc_pcr (input_buffer m') (if ts_size m = int TS_PACKET_SIZE then p else p + 4)
               = Inr (pcr m')"
proof -
  let ?m2 = "open_file_stat fdn file m"
  let ?r = "open_file_read file ?m2"
  let ?m3 = "add_log (Warning ''file is too small'') (snd ?r)"
  have short: "int (input_size (snd ?r)) \<noteq> fst ?r"
    using assms(2) by (auto simp: open_file_read_def pread_def Let_def)
  have len: "length (input_buffer ?m3) = input_size m"
    using assms(2,3) by (auto simp: open_file_read_def pread_def Let_def store_at_def add_log_def)
  have ptr: "input_ptr ?m3 = Some p"
    using assms(4) by (simp add: add_log_def)
  from len assms(5) obtain v where v: "calc_pcr (input_buffer ?m3) p = Inr v"
    using calc_pcr_Inr [of p "input_buffer ?m3"] by auto
  from len assms(5) obtain v4 where v4: "calc_pcr (input_buffer ?m3) (p + 4) = Inr v4"
    using calc_pcr_Inr [of "p + 4" "input_buffer ?m3"] by auto
  have "open_file_pcr ?m3
          = Inr (1, ?m3\<lparr>pcr := (if ts_size ?m3 = int TS_PACKET_SIZE then v else v4)\<rparr>)"
    by (simp add: open_file_pcr_def ptr v v4)
  with assms(1) short have
    "open_file fdn file m
       = Inr (1, ?m3\<lparr>pcr := (if ts_size ?m3 = int TS_PACKET_SIZE then v else v4)\<rparr>)"
    by (simp add: open_file_def Let_def)
  then show ?thesis
    using assms(4) v v4 by (auto simp: add_log_def)
qed

text \<open>With a null cursor the same call logs "first PCR is not found" and returns 0.\<close>

lemma short_file_null_cursor:
  assumes "0 < fdn" and "length file < input_size m" and "input_ptr m = None"
  shows "\<exists>m'. open_file fdn file m = Inr (0, m') \<and> fd m' = 0"
proof -
  let ?r = "open_file_read file (open_file_stat fdn file m)"
  have short: "int (input_size (snd ?r)) \<noteq> fst ?r"
    using assms(2) by (auto simp: open_file_read_def pread_def Let_def)
  with assms(1,3) show ?thesis
    by (simp add: open_file_def Let_def open_file_pcr_def add_log_def)
qed

lemma open_s2_file: "open_file 3 s2_file init_state = Inr (1, s2_opened)"
  by (simp add: open_file_def open_file_read_def open_file_stat_def pread_def store_at_def
      add_log_def open_file_pcr_def calc_pcr_def peek_def Let_def TS_PACKET_SIZE_def nth_append
      init_state_sel s2_file_def cell_def s2_opened_def)

lemma s2_opened_sel:
  "ts_size s2_opened = 0" "start_time s2_opened = 0" "length_ms s2_opened = 0"
  "input_ptr s2_opened = Some 0" "input_end s2_opened = 2097152"
  "input_buffer s2_opened = s2_file @ replicate 2096576 0"
  by (simp_all add: s2_opened_def init_state_sel)

lemma s2_second_cell:
  "(s2_file @ replicate 2096576 0) ! 199 = 0x20" "(s2_file @ replicate 2096576 0) ! 200 = 1"
  "(s2_file @ replicate 2096576 0) ! 201 = 0x10"
  by (simp_all add: s2_file_def cell_def nth_append)

text \<open>
  C1: a file shorter than the input window should be warned about and still
  be probed; scenario S2, a file of three M2TS cells, should end with the packet
  size 192, the start time 1000 and the length 10000. The code does not probe
  it. The three cells are fewer than the 2 MiB of the window, and after the
  first \<^verbatim>\<open>open_file\<close> the call has returned 1 while the packet size is still
  0, neither 188 nor 192, the start time 0, the length 0 and the cursor where
  it was. \<^verbatim>\<open>thread_loop\<close> goes on with this state: it finds the PCR of the
  second cell as the end of the block, at offset 192, and divides the distance
  by the packet size, which is zero.
\<close>

theorem short_file_open_example:
  "length s2_file < input_size init_state
   \<and> open_file 3 s2_file init_state = Inr (1, s2_opened)
   \<and> probe_outcome (open_file 3 s2_file init_state) = Some (1, 0, 0, 0, Some 0)
   \<and> thread_loop_seek s2_opened = Inr (Some 192)
   \<and> thread_loop_block_size s2_opened 192 = Inl Division_by_zero"
  by (simp add: open_s2_file probe_outcome_def s2_opened_sel length_s2_file init_state_sel
      thread_loop_seek_def thread_loop_block_size_def TS_PACKET_SIZE_def M2TS_PACKET_SIZE_def
      seek_pcr_192_def check_pcr_def peek_def s2_second_cell)

section \<open>The ring\<close>

text \<open>
  C2: on a ring in use, every call of \<^verbatim>\<open>sync_queue_push\<close> with a packet
  does one of two things. When the count has reached the size of the buffer it
  adds one to \<open>sync_buffer_overflow\<close> and changes nothing else: no byte is
  stored and none is sent; \<open>n\<close> such calls in a row add \<open>n\<close>. Otherwise it
  copies the 188 bytes of the packet to the write index and no byte anywhere
  else, moves the write index on by 188 modulo the size, adds 188 to the
  count, sends the one byte \<open>0x00\<close> (the socket taking it), and, if packets
  were dropped before, logs their number and sets it back to 0. Consequently,
  after any run of pushes and pops, the count holds 188 bytes for each signal
  byte other than \<open>0xFF\<close> that is on its way.
\<close>

theorem sync_queue_push_step:
  assumes "ring_ok m" and "TS_PACKET_SIZE \<le> length pkt"
  shows "(if sync_buffer_size m \<le> sync_buffer_count m
          then sync_queue_push sent (Some pkt) m
                 = Inr (m\<lparr>sync_buffer_overflow := sync_buffer_overflow m + 1\<rparr>)
               \<and> queue_run (replicate n (Push (Some pkt))) m
                   = Some (m\<lparr>sync_buffer_overflow := sync_buffer_overflow m + of_nat n\<rparr>)
          else (\<exists>m'. sync_queue_push True (Some pkt) m = Inr m'
             \<and> take TS_PACKET_SIZE (drop (unat (sync_buffer_write m)) (sync_buffer m'))
                 = take TS_PACKET_SIZE pkt
             \<and> take (unat (sync_buffer_write m)) (sync_buffer m')
                 = take (unat (sync_buffer_write m)) (sync_buffer m)
             \<and> drop (unat (sync_buffer_write m) + TS_PACKET_SIZE) (sync_buffer m')
                 = drop (unat (sync_buffer_write m) + TS_PACKET_SIZE) (sync_buffer m)
             \<and> unat (sync_buffer_write m')
                 = (unat (sync_buffer_write m) + TS_PACKET_SIZE) mod SYNC_BUFFER_SIZE
             \<and> unat (sync_buffer_count m') = unat (sync_buffer_count m) + TS_PACKET_SIZE
             \<and> sync_chan m' = sync_chan m @ [0]
             \<and> sync_buffer_overflow m' = 0
             \<and> sync_buffer_read m' = sync_buffer_read m
             \<and> log m' = log m @ (if sync_buffer_overflow m = 0 then []
                  else [Error_count ''sync buffer overflow. dropped %d packets''
                          (sync_buffer_overflow m)])))
       \<and> (\<forall>ops m'. queue_run ops m = Some m' \<longrightarrow>
             unat (sync_buffer_count m') = TS_PACKET_SIZE * signals_pending m')"
proof (intro conjI)
  show "\<forall>ops m'. queue_run ops m = Some m' \<longrightarrow>
          unat (sync_buffer_count m') = TS_PACKET_SIZE * signals_pending m'"
    using queue_run_ring_ok [OF assms(1)] by (auto simp: ring_ok_def)
next
  show "if sync_buffer_size m \<le> sync_buffer_count m
        then sync_queue_push sent (Some pkt) m
               = Inr (m\<lparr>sync_buffer_overflow := sync_buffer_overflow m + 1\<rparr>)
             \<and> queue_run (replicate n (Push (Some pkt))) m
                 = Some (m\<lparr>sync_buffer_overflow := sync_buffer_overflow m + of_nat n\<rparr>)
        else (\<exists>m'. sync_queue_push True (Some pkt) m = Inr m'
             \<and> take TS_PACKET_SIZE (drop (unat (sync_buffer_write m)) (sync_buffer m'))
                 = take TS_PACKET_SIZE pkt
             \<and> take (unat (sync_buffer_write m)) (sync_buffer m')
                 = take (unat (sync_buffer_write m)) (sync_buffer m)
             \<and> drop (unat (sync_buffer_write m) + TS_PACKET_SIZE) (sync_buffer m')
                 = drop (unat (sync_buffer_write m) + TS_PACKET_SIZE) (sync_buffer m)
             \<and> unat (sync_buffer_write m')
                 = (unat (sync_buffer_write m) + TS_PACKET_SIZE) mod SYNC_BUFFER_SIZE
             \<and> unat (sync_buffer_count m') = unat (sync_buffer_count m) + TS_PACKET_SIZE
             \<and> sync_chan m' = sync_chan m @ [0]
             \<and> sync_buffer_overflow m' = 0
             \<and> sync_buffer_read m' = sync_buffer_read m
             \<and> log m' = log m @ (if sync_buffer_overflow m = 0 then []
                  else [Error_count ''sync buffer overflow. dropped %d packets''
                          (sync_buffer_overflow m)]))"
  proof (cases "sync_buffer_size m \<le> sync_buffer_count m")
    case True
    then show ?thesis
      by (simp only: if_True sync_queue_push_drop queue_run_drops simp_thms)
  next
    case False
    from sync_queue_push_accept [OF assms False] False show ?thesis
      by (simp only: if_False) blast
  qed
qed

theorem sync_queue_push_step_witness:
  "ring_ok init_state \<and> ring_ok full_state \<and> TS_PACKET_SIZE \<le> length pcr_packet
   \<and> sync_queue_push True (Some pcr_packet) full_state
       = Inr (full_state\<lparr>sync_buffer_overflow := sync_buffer_overflow full_state + 1\<rparr>)
   \<and> (\<exists>m'. sync_queue_push True (Some pcr_packet) init_state = Inr m'
         \<and> take TS_PACKET_SIZE (drop (unat (sync_buffer_write init_state)) (sync_buffer m'))
             = take TS_PACKET_SIZE pcr_packet
         \<and> unat (sync_buffer_write m')
             = (unat (sync_buffer_write init_state) + TS_PACKET_SIZE) mod SYNC_BUFFER_SIZE
         \<and> unat (sync_buffer_count m') = unat (sync_buffer_count init_state) + TS_PACKET_SIZE
         \<and> sync_chan m' = sync_chan init_state @ [0])"
proof -
  have p: "TS_PACKET_SIZE \<le> length pcr_packet"
    by (simp add: TS_PACKET_SIZE_def pcr_packet_def)
  have f: "sync_buffer_size full_state \<le> sync_buffer_count full_state"
    by (simp add: full_state_def init_state_sel)
  have e: "\<not> sync_buffer_size init_state \<le> sync_buffer_count init_state"
    by (simp add: init_state_sel)
  from sync_queue_push_step [OF ring_ok_full p, of True 0] f
  have a: "sync_queue_push True (Some pcr_packet) full_state
             = Inr (full_state\<lparr>sync_buffer_overflow := sync_buffer_overflow full_state + 1\<rparr>)"
    by (simp only: if_True)
  from sync_queue_push_step [OF ring_ok_init p, of True 0] e
  have b: "\<exists>m'. sync_queue_push True (Some pcr_packet) init_state = Inr m'
         \<and> take TS_PACKET_SIZE (drop (unat (sync_buffer_write init_state)) (sync_buffer m'))
             = take TS_PACKET_SIZE pcr_packet
         \<and> unat (sync_buffer_write m')
             = (unat (sync_buffer_write init_state) + TS_PACKET_SIZE) mod SYNC_BUFFER_SIZE
         \<and> unat (sync_buffer_count m') = unat (sync_buffer_count init_state) + TS_PACKET_SIZE
         \<and> sync_chan m' = sync_chan init_state @ [0]"
    by (simp only: if_False) blast
  from ring_ok_init ring_ok_full p a b show ?thesis
    by blast
qed


section \<open>Seeking by time\<close>

lemma m2ts_time_zero: "m2ts_time (replicate 2097152 0) 0 = Inr 0"
  by (simp add: m2ts_time_def peek_def)

lemma m2ts_time_Inr: "p + 4 \<le> length mem \<Longrightarrow> \<exists>t. m2ts_time mem p = Inr t"
  by (simp add: m2ts_time_def peek_def)

lemma ucast_u32_u64: "(ucast (w :: u32) :: u64) = of_nat (unat w)"
  by simp

lemma method_position_exact:
  assumes lt: "pos < length_ms m" and ts: "ts_size m = int M2TS_PACKET_SIZE"
    and ptr: "input_ptr m = Some p" and inb: "p + 4 \<le> length (input_buffer m)"
    and cells: "unat (file_size m) div 192 < 2 ^ 32"
    and prod: "unat pos * (unat (file_size m) div 192) < 2 ^ 32"
    and skip: "unat pos * (unat (file_size m) div 192) div unat (length_ms m) * 192 < 2 ^ 32"
  shows "\<exists>t. m2ts_time (input_buffer m) p = Inr t
           \<and> method_position (Some pos) m
               = Inr (t div 1000 - start_time m,
                      m\<lparr>reposition := True,
                        input_skip := of_nat (unat pos * (unat (file_size m) div 192)
                                                div unat (length_ms m) * 192)\<rparr>)"
proof -
  from inb obtain t where t: "m2ts_time (input_buffer m) p = Inr t"
    using m2ts_time_Inr by blast
  define ts_count :: u32 where "ts_count = ucast (file_size m div 192)"
  have c1: "unat (file_size m div 192) = unat (file_size m) div 192"
    by (simp add: unat_div)
  have c2: "unat ts_count = unat (file_size m) div 192"
    using cells c1 by (simp add: ts_count_def unsigned_ucast_eq take_bit_nat_eq_self)
  have c3: "unat (pos * ts_count) = unat pos * (unat (file_size m) div 192)"
    using prod c2 by (simp add: unat_word_ariths)
  have c4: "unat (pos * ts_count div length_ms m)
              = unat pos * (unat (file_size m) div 192) div unat (length_ms m)"
    by (simp add: unat_div c3)
  have c5: "unat (pos * ts_count div length_ms m * 192)
              = unat pos * (unat (file_size m) div 192) div unat (length_ms m) * 192"
    using skip c4 by (simp add: unat_word_ariths)
  have c6: "(ucast (pos * ts_count div length_ms m * 192) :: u64)
              = of_nat (unat pos * (unat (file_size m) div 192) div unat (length_ms m) * 192)"
    by (simp only: ucast_u32_u64 c5)
  from lt have nle: "\<not> length_ms m \<le> pos" by simp
  show ?thesis
    using t nle ts ptr c6
    by (simp add: method_position_def Let_def ts_count_def M2TS_PACKET_SIZE_def)
qed

lemma method_position_refused:
  "length_ms m \<le> pos \<or> ts_size m \<noteq> int M2TS_PACKET_SIZE \<Longrightarrow>
     method_position (Some pos) m = Inr (0, m)"
  by (auto simp: method_position_def)

text \<open>
  C4: \<open>position(ms)\<close> returns 0 and changes nothing when \<open>ms\<close> is not below
  the length or the file is not M2TS (lemma \<open>method_position_refused\<close>), and
  otherwise raises the reposition flag and returns the time at the cursor
  less the start time. The offset it stores is the one the claim gives as long
  as neither the product \<open>ms * (file_size / 192)\<close> nor the offset reaches
  \<open>2 ^ 32\<close> (lemma \<open>method_position_exact\<close>). The code computes in
  \<^verbatim>\<open>uint32_t\<close>, though, and the product wraps around: seeking to 100 seconds in
  a file of 100000 cells and 200 seconds stores the offset 1353600 where the
  claim's formula gives 9600000.
\<close>

theorem position_overflow_example:
  "method_position (Some 100000) m2ts_playing
     = Inr (0, m2ts_playing\<lparr>reposition := True, input_skip := 1353600\<rparr>)
   \<and> ((100000 * (19200000 div 192)) div 200000) * 192 = (9600000 :: nat)"
  by (simp add: method_position_def m2ts_playing_def init_state_sel M2TS_PACKET_SIZE_def
      m2ts_time_zero Let_def)

section \<open>The lock file\<close>

lemma digit_char:
  assumes "d < 10"
  shows "isdigit (of_nat (48 + d)) \<and> unat (of_nat (48 + d) :: u8) - 48 = d
         \<and> \<not> isspace (of_nat (48 + d)) \<and> (of_nat (48 + d) :: u8) \<noteq> 0x2D
         \<and> (of_nat (48 + d) :: u8) \<noteq> 0x2B"
proof -
  from assms have "d = 0 \<or> d = 1 \<or> d = 2 \<or> d = 3 \<or> d = 4 \<or> d = 5 \<or> d = 6 \<or> d = 7 \<or> d = 8 \<or> d = 9"
    by arith
  then show ?thesis
    by (elim disjE) (simp_all add: isdigit_def isspace_def)
qed

lemma decimal_small: "n < 10 \<Longrightarrow> decimal n = [of_nat (48 + n)]"
  by (subst decimal.simps) (simp only: if_True)

lemma decimal_large: "\<not> n < 10 \<Longrightarrow> decimal n = decimal (n div 10) @ [of_nat (48 + n mod 10)]"
  by (subst decimal.simps) (simp only: if_False)

lemma strtoul_digits_decimal:
  "strtoul_digits acc (decimal n @ rest) = strtoul_digits (acc * 10 ^ length (decimal n) + n) rest"
proof (induction n arbitrary: acc rest rule: decimal.induct)
  case (1 n)
  show ?case
  proof (cases "n < 10")
    case True
    have "strtoul_digits acc (decimal n @ rest) = strtoul_digits (acc * 10 + n) rest"
      using digit_char [OF True]
      by (simp only: decimal_small [OF True] append_Cons append_Nil strtoul_digits.simps if_True)
    also have "acc * 10 + n = acc * 10 ^ length (decimal n) + n"
      by (simp only: decimal_small [OF True]) simp
    finally show ?thesis .
  next
    case False
    note d = decimal_large [OF False]
    have m: "n mod 10 < 10" by simp
    have "strtoul_digits acc (decimal n @ rest)
            = strtoul_digits acc (decimal (n div 10) @ of_nat (48 + n mod 10) # rest)"
      by (simp only: d append_assoc append_Cons append_Nil)
    also have "\<dots> = strtoul_digits (acc * 10 ^ length (decimal (n div 10)) + n div 10)
                       (of_nat (48 + n mod 10) # rest)"
      using False by (rule "1.IH")
    also have "\<dots> = strtoul_digits
                       ((acc * 10 ^ length (decimal (n div 10)) + n div 10) * 10 + n mod 10) rest"
      using digit_char [OF m] by (simp only: strtoul_digits.simps if_True)
    also have "(acc * 10 ^ length (decimal (n div 10)) + n div 10) * 10 + n mod 10
                 = acc * 10 ^ length (decimal n) + n"
      by (simp only: d length_append list.size) (simp add: algebra_simps)
    finally show ?thesis .
  qed
qed

lemma decimal_hd:
  "\<exists>d ds. decimal n = d # ds \<and> isdigit d \<and> \<not> isspace d \<and> d \<noteq> 0x2D \<and> d \<noteq> 0x2B"
proof (induction n rule: decimal.induct)
  case (1 n)
  show ?case
  proof (cases "n < 10")
    case True
    with digit_char [OF True] decimal_small [OF True] show ?thesis by blast
  next
    case False
    from "1.IH" [OF False] obtain d ds where
      "decimal (n div 10) = d # ds" "isdigit d" "\<not> isspace d" "d \<noteq> 0x2D" "d \<noteq> 0x2B"
      by blast
    with decimal_large [OF False] show ?thesis by simp
  qed
qed

lemma decimal_length: "n < 10 ^ k \<Longrightarrow> 0 < k \<Longrightarrow> length (decimal n) \<le> k"
proof (induction n arbitrary: k rule: decimal.induct)
  case (1 n)
  show ?case
  proof (cases "n < 10")
    case True
    with "1.prems" show ?thesis by (simp add: decimal_small)
  next
    case False
    from "1.prems" obtain j where j: "k = Suc j" by (cases k) auto
    from "1.prems"(1) j have "n < 10 * 10 ^ j" by simp
    then have a: "n div 10 < 10 ^ j" by (simp add: less_mult_imp_div_less mult.commute)
    with False have b: "0 < j" by (cases j) auto
    from "1.IH" [OF False a b] j show ?thesis
      by (simp add: decimal_large [OF False])
  qed
qed

lemma strtoul_decimal:
  assumes "n \<le> ULONG_MAX" "\<not> isdigit c"
  shows "strtoul (decimal n @ c # rest) = Inr (of_nat n)"
proof -
  from decimal_hd obtain d ds where d: "decimal n = d # ds" "isdigit d" "\<not> isspace d"
      "d \<noteq> 0x2D" "d \<noteq> 0x2B"
    by blast
  have sp: "strtoul_space (decimal n @ c # rest) = Some (decimal n @ c # rest)"
    by (simp add: d)
  have hd: "hd (decimal n @ c # rest) = d"
    by (simp add: d)
  have "strtoul_digits 0 (decimal n @ c # rest) = Some n"
    using assms(2) by (simp add: strtoul_digits_decimal)
  with assms(1) sp hd d(4,5) show ?thesis
    by (simp add: strtoul_def Let_def)
qed

lemma open_file_pcr_skip:
  "open_file_pcr m = Inr (r, m') \<Longrightarrow> input_skip m' = input_skip m"
  by (auto simp: open_file_pcr_def fbind_Inr_iff add_log_def split: option.splits)

lemma open_file_probe_skip:
  "open_file_probe file m = Inr (r, m') \<Longrightarrow> input_skip m' = input_skip m"
  by (auto simp: open_file_probe_def fbind_Inr_iff add_log_def split: if_splits
      dest!: open_file_pcr_skip open_file_m2ts_Inr)

lemma open_file_skip:
  assumes "open_file fdn file m = Inr (r, m')" "0 < fdn"
  shows "input_skip m' = input_skip (open_file_stat fdn file m)"
proof -
  let ?r = "open_file_read file (open_file_stat fdn file m)"
  from assms consider
      "open_file_pcr (add_log (Warning ''file is too small'') (snd ?r)) = Inr (r, m')"
    | "open_file_probe file (snd ?r) = Inr (r, m')"
    by (auto simp: open_file_def Let_def split: if_splits)
  then show ?thesis
  proof cases
    case 1
    from open_file_pcr_skip [OF 1] show ?thesis by (simp add: add_log_def)
  next
    case 2
    from open_file_probe_skip [OF 2] show ?thesis by simp
  qed
qed

lemma open_file_stat_skip:
  "input_skip (open_file_stat fdn file m)
     = (if input_skip m < of_nat (length file) then input_skip m else 0)"
  "log (open_file_stat fdn file m)
     = log m @ (if input_skip m \<noteq> 0 \<and> of_nat (length file) \<le> input_skip m
                then [Warning ''skip value is greater than the file size''] else [])"
  by (auto simp: open_file_stat_def Let_def add_log_def not_less)

lemma length_malloc [simp]: "length (malloc n heap) = n"
  by (simp add: malloc_def)

lemma module_init_reads_lock:
  assumes "opt_check_length opts \<noteq> Some True" and "opt_lock opts = Some path"
    and "case opt_buffer_size opts of None \<Rightarrow> True | Some n \<Rightarrow> n < 2048"
    and "0 < env_lock_fd env"
    and "if env_lock_file env = [] then v = 0
         else strtoul (store_at (malloc 64 (env_skip_str env)) 0 (take 64 (env_lock_file env))) = Inr v"
  shows "\<exists>m1. module_init opts env module_zero = Inr m1 \<and> input_skip m1 = v \<and> log m1 = []"
proof -
  have size: "\<not> (2 :: int) ^ 31 \<le> (case opt_buffer_size opts of
                  None \<Rightarrow> INPUT_BUFFER_SIZE
                | Some n \<Rightarrow> if n \<le> 0 then INPUT_BUFFER_SIZE else n) * 1024 * 1024"
    using assms(3) by (auto simp: INPUT_BUFFER_SIZE_def split: option.splits)
  show ?thesis
  proof (cases "env_lock_file env = []")
    case True
    with assms(1,2,4,5) size show ?thesis
      by (simp add: module_init_def module_init_lock_def Let_def module_zero_def)
  next
    case False
    with assms(1,2,4,5) size show ?thesis
      by (simp add: module_init_def module_init_lock_def Let_def module_zero_def)
  qed
qed

lemma unat_u64_digits: "length (decimal (unat (v :: u64))) \<le> 20"
proof -
  have "unat v < 2 ^ 64" using unsigned_less [of v] by simp
  also have "(2 :: nat) ^ 64 < 10 ^ 20" by simp
  finally show ?thesis by (intro decimal_length) simp_all
qed

lemma strtoul_lock_content:
  assumes "\<not> isdigit (malloc 64 junk ! length (sprintf_lu v))"
  shows "strtoul (store_at (malloc 64 junk) 0 (take 64 (sprintf_lu v))) = Inr v"
proof -
  let ?c = "sprintf_lu v" and ?J = "malloc 64 junk"
  have len: "length ?c \<le> 20"
    unfolding sprintf_lu_def by (rule unat_u64_digits)
  then have tk: "take 64 ?c = ?c" by simp
  from len have lt: "length ?c < length ?J" by simp
  have "store_at ?J 0 ?c = ?c @ drop (length ?c) ?J"
    by (simp add: store_at_def)
  also have "drop (length ?c) ?J = ?J ! length ?c # drop (Suc (length ?c)) ?J"
    using lt by (rule Cons_nth_drop_Suc [symmetric])
  finally have "store_at ?J 0 (take 64 ?c) = ?c @ ?J ! length ?c # drop (Suc (length ?c)) ?J"
    by (simp only: tk)
  moreover have "unat v \<le> ULONG_MAX"
  proof -
    have "unat v < 2 ^ 64" using unsigned_less [of v] by simp
    then show ?thesis by (simp add: ULONG_MAX_def)
  qed
  ultimately show ?thesis
    using strtoul_decimal [OF _ assms, of "unat v"] by (simp add: sprintf_lu_def)
qed

lemma sprintf_lu_nonempty: "sprintf_lu v \<noteq> []"
  using decimal_hd [of "unat v"] by (auto simp: sprintf_lu_def)

lemma strtoul_space_append:
  "dropWhile isspace s = c # cs \<Longrightarrow> strtoul_space (s @ rest) = Some (c # cs @ rest)"
proof (induction s)
  case Nil
  then show ?case by simp
next
  case (Cons a s)
  show ?case
  proof (cases "isspace a")
    case True
    with Cons show ?thesis by simp
  next
    case False
    with Cons.prems show ?thesis by auto
  qed
qed

lemma strtoul_not_decimal:
  assumes "stops_at_nondigit s" "s \<noteq> []"
  shows "strtoul (s @ rest) = Inr 0"
proof -
  from assms obtain c cs where d: "dropWhile isspace s = c # cs"
    by (cases "dropWhile isspace s") (auto simp: stops_at_nondigit_def)
  note sp = strtoul_space_append [OF d, of rest]
  show ?thesis
  proof (cases "c = 0x2D \<or> c = 0x2B")
    case True
    with assms(1) d obtain e es where e: "cs = e # es" "\<not> isdigit e"
      by (cases cs) (auto simp: stops_at_nondigit_def)
    with True sp show ?thesis
      by (auto simp: strtoul_def Let_def ULONG_MAX_def)
  next
    case False
    with assms(1) d have "\<not> isdigit c"
      by (auto simp: stops_at_nondigit_def)
    with False sp show ?thesis
      by (auto simp: strtoul_def Let_def ULONG_MAX_def)
  qed
qed

lemma lock_options_sel:
  "opt_check_length lock_options = None" "opt_lock lock_options = Some ''skip.lock''"
  "opt_buffer_size lock_options = None" "opt_loop lock_options = None"
  "opt_pause lock_options = None" "opt_callback lock_options = None"
  by (simp_all add: lock_options_def default_options_def)

lemma lock_env_sel:
  "env_lock_fd (lock_env c) = 4" "env_lock_file (lock_env c) = c" "env_skip_str (lock_env c) = []"
  "env_sync_heap (lock_env c) = []" "env_input_heap (lock_env c) = []"
  by (simp_all add: lock_env_def quiet_env_def)

lemma malloc_zero: "malloc n [] = replicate n 0"
  by (simp add: malloc_def)

lemma isdigit_zero: "\<not> isdigit 0" "\<not> isdigit 0x61"
  by (simp_all add: isdigit_def)

lemma sprintf_lu_1880: "sprintf_lu 1880 = [0x31, 0x38, 0x38, 0x30]"
  by (simp add: sprintf_lu_def decimal.simps)

lemma strtoul_digits_zeros: "0 < n \<Longrightarrow> strtoul_digits acc (replicate n 0) = Some acc"
  by (cases n) (simp_all add: isdigit_def)

lemma module_init_lock_zero:
  "module_init lock_options (lock_env [0x30]) module_zero = Inr (lock_state 0)"
  by (simp add: module_init_def module_init_lock_def lock_options_sel lock_env_sel malloc_zero
      store_at_def strtoul_def isspace_def isdigit_def ULONG_MAX_def Let_def
      lock_state_def init_state_def module_zero_def SYNC_BUFFER_SIZE_def TS_PACKET_SIZE_def
      INPUT_BUFFER_SIZE_def strtoul_digits_zeros)

lemma calc_pcr_zeros: "calc_pcr (replicate 2097152 0) 4 = Inr 0"
  by (simp add: calc_pcr_def peek_def)

text \<open>
  When a lock path is configured, the lock file opens and \<^verbatim>\<open>strtoul\<close> stops
  among the bytes read without having met a digit, \<^verbatim>\<open>module_init\<close> leaves the
  file offset at 0 and logs nothing; \<^verbatim>\<open>open_file\<close> then finds the offset 0,
  keeps it and logs no warning about it, so the file is played from its start.
\<close>

lemma lock_nondigit_starts_at_zero:
  assumes "opt_check_length opts \<noteq> Some True" and "opt_lock opts = Some path"
    and "case opt_buffer_size opts of None \<Rightarrow> True | Some n \<Rightarrow> n < 2048"
    and "0 < env_lock_fd env"
    and "stops_at_nondigit (take 64 (env_lock_file env))"
  shows "\<exists>m1. module_init opts env module_zero = Inr m1 \<and> input_skip m1 = 0 \<and> log m1 = []
           \<and> input_skip (open_file_stat fdn file m1) = 0
           \<and> log (open_file_stat fdn file m1) = []"
proof -
  let ?got = "take 64 (env_lock_file env)"
  have "if env_lock_file env = [] then (0 :: u64) = 0
        else strtoul (store_at (malloc 64 (env_skip_str env)) 0 ?got) = Inr 0"
  proof (cases "env_lock_file env = []")
    case True
    then show ?thesis by simp
  next
    case False
    then have ne: "?got \<noteq> []" by simp
    have "store_at (malloc 64 (env_skip_str env)) 0 ?got
            = ?got @ drop (length ?got) (malloc 64 (env_skip_str env))"
      by (simp add: store_at_def)
    with strtoul_not_decimal [OF assms(5) ne] False show ?thesis
      by simp
  qed
  from module_init_reads_lock [OF assms(1-4) this] obtain m1 where
    m1: "module_init opts env module_zero = Inr m1" "input_skip m1 = 0" "log m1 = []"
    by blast
  then show ?thesis
    by (simp add: open_file_stat_skip)
qed

lemma strtoul_zeros: "0 < n \<Longrightarrow> strtoul (replicate n 0) = Inr 0"
  by (cases n) (simp_all add: strtoul_def isspace_def isdigit_def ULONG_MAX_def)

lemma strtoul_skip_space: "isspace c \<Longrightarrow> strtoul (c # cs) = strtoul cs"
  by (simp add: strtoul_def)

lemma module_init_blank_lock:
  "module_init lock_options (lock_env [0x0A]) module_zero = Inr (lock_state 0)"
  by (simp add: module_init_def module_init_lock_def lock_options_sel lock_env_sel malloc_def
      store_at_def strtoul_skip_space strtoul_zeros isspace_def Let_def
      lock_state_def init_state_def module_zero_def SYNC_BUFFER_SIZE_def TS_PACKET_SIZE_def
      INPUT_BUFFER_SIZE_def)

lemma module_init_blank_lock_stale:
  "module_init lock_options ((lock_env [0x0A])\<lparr>env_skip_str := [0, 0x35]\<rparr>) module_zero
     = Inr (lock_state 5)"
  by (simp add: module_init_def module_init_lock_def lock_options_sel malloc_def
      store_at_def strtoul_def isspace_def isdigit_def ULONG_MAX_def Let_def
      lock_state_def init_state_def module_zero_def SYNC_BUFFER_SIZE_def TS_PACKET_SIZE_def
      INPUT_BUFFER_SIZE_def lock_env_def quiet_env_def strtoul_digits_zeros)

text \<open>
  C9: a lock file whose leading bytes do not form a decimal number should
  leave the file offset at 0. A lock file that holds one line feed is such a
  file, and with zeroed memory behind the byte read the offset is 0. But
  \<^verbatim>\<open>read\<close> does not end the bytes it stores in \<^verbatim>\<open>skip_str\<close>, and
  \<^verbatim>\<open>strtoul\<close> passes the white space and goes on into what the array held
  before: with a stale digit 5 after the byte read the offset becomes 5, and
  nothing is logged.
\<close>

theorem lock_blank_stale_digit_example:
  "isspace 0x0A
   \<and> module_init lock_options (lock_env [0x0A]) module_zero = Inr (lock_state 0)
   \<and> module_init lock_options ((lock_env [0x0A])\<lparr>env_skip_str := [0, 0x35]\<rparr>) module_zero
       = Inr (lock_state 5)
   \<and> input_skip (lock_state 5) = 5 \<and> log (lock_state 5) = []"
  by (simp add: module_init_blank_lock module_init_blank_lock_stale isspace_def lock_state_def
      init_state_sel)

text \<open>
  C7 (as amended): the timer writes the file offset to the lock file in
  decimal; after a restart \<^verbatim>\<open>module_init\<close> reads the same offset back,
  provided the byte of \<^verbatim>\<open>skip_str\<close> that follows the bytes read is not a
  decimal digit. \<^verbatim>\<open>open_file\<close> then keeps the offset when it is below the size
  of the file and sets it to 0 otherwise, with the warning "skip value is
  greater than the file size" exactly when the offset read was not 0.
\<close>

theorem lock_round_trip:
  assumes "opt_check_length opts \<noteq> Some True" and "opt_lock opts = Some path"
    and "case opt_buffer_size opts of None \<Rightarrow> True | Some n \<Rightarrow> n < 2048"
    and "0 < wfd" and "wrote = int (length (sprintf_lu (input_skip m)))"
    and "timer_skip_set wfd wrote m old = Some (env_lock_file env)"
    and "0 < env_lock_fd env"
    and "\<not> isdigit (malloc 64 (env_skip_str env) ! length (env_lock_file env))"
  shows "\<exists>m1. module_init opts env module_zero = Inr m1
           \<and> input_skip m1 = input_skip m
           \<and> input_skip (open_file_stat fdn file m1)
               = (if input_skip m < of_nat (length file) then input_skip m else 0)
           \<and> log (open_file_stat fdn file m1)
               = (if input_skip m \<noteq> 0 \<and> of_nat (length file) \<le> input_skip m
                  then [Warning ''skip value is greater than the file size''] else [])
           \<and> (\<forall>r m'. 0 < fdn \<and> open_file fdn file m1 = Inr (r, m') \<longrightarrow>
                 input_skip m' = (if input_skip m < of_nat (length file) then input_skip m else 0))"
proof -
  from assms(4-6) have content: "env_lock_file env = sprintf_lu (input_skip m)"
    by (simp add: timer_skip_set_def Let_def)
  then have ne: "env_lock_file env \<noteq> []"
    by (simp add: sprintf_lu_nonempty)
  from assms(8) content have
    "strtoul (store_at (malloc 64 (env_skip_str env)) 0 (take 64 (env_lock_file env)))
       = Inr (input_skip m)"
    by (simp add: strtoul_lock_content)
  with ne have "if env_lock_file env = [] then input_skip m = 0
        else strtoul (store_at (malloc 64 (env_skip_str env)) 0 (take 64 (env_lock_file env)))
               = Inr (input_skip m)"
    by simp
  from module_init_reads_lock [OF assms(1-3,7) this] obtain m1 where
    m1: "module_init opts env module_zero = Inr m1" "input_skip m1 = input_skip m" "log m1 = []"
    by blast
  have "\<forall>r m'. 0 < fdn \<and> open_file fdn file m1 = Inr (r, m') \<longrightarrow>
          input_skip m' = (if input_skip m < of_nat (length file) then input_skip m else 0)"
    using open_file_skip [where m = m1] m1(2) by (auto simp: open_file_stat_skip)
  with m1 show ?thesis
    by (simp add: open_file_stat_skip)
qed

theorem lock_round_trip_witness:
  "opt_check_length lock_options \<noteq> Some True \<and> opt_lock lock_options = Some ''skip.lock''
   \<and> (case opt_buffer_size lock_options of None \<Rightarrow> True | Some n \<Rightarrow> n < 2048)
   \<and> (0 :: int) < 4
   \<and> timer_skip_set 4 4 (lock_state 1880) None
        = Some (env_lock_file (lock_env [0x31, 0x38, 0x38, 0x30]))
   \<and> 0 < env_lock_fd (lock_env [0x31, 0x38, 0x38, 0x30])
   \<and> \<not> isdigit (malloc 64 (env_skip_str (lock_env [0x31, 0x38, 0x38, 0x30]))
                   ! length (env_lock_file (lock_env [0x31, 0x38, 0x38, 0x30])))
   \<and> (\<exists>m1. module_init lock_options (lock_env [0x31, 0x38, 0x38, 0x30]) module_zero = Inr m1
         \<and> input_skip m1 = input_skip (lock_state 1880)
         \<and> input_skip (open_file_stat 3 ts_file m1)
             = (if input_skip (lock_state 1880) < of_nat (length ts_file)
                then input_skip (lock_state 1880) else 0)
         \<and> log (open_file_stat 3 ts_file m1)
             = (if input_skip (lock_state 1880) \<noteq> 0
                   \<and> of_nat (length ts_file) \<le> input_skip (lock_state 1880)
                then [Warning ''skip value is greater than the file size''] else []))"
proof -
  have s: "input_skip (lock_state 1880) = 1880"
    by (simp add: lock_state_def)
  have a: "opt_check_length lock_options \<noteq> Some True"
    by (simp add: lock_options_sel)
  have b: "opt_lock lock_options = Some ''skip.lock''"
    by (simp add: lock_options_sel)
  have c: "case opt_buffer_size lock_options of None \<Rightarrow> True | Some n \<Rightarrow> n < 2048"
    by (simp add: lock_options_sel)
  have d: "(0 :: int) < 4" by simp
  have e: "(4 :: int) = int (length (sprintf_lu (input_skip (lock_state 1880))))"
    by (simp add: s sprintf_lu_1880)
  have f: "timer_skip_set 4 4 (lock_state 1880) None
             = Some (env_lock_file (lock_env [0x31, 0x38, 0x38, 0x30]))"
    by (simp add: timer_skip_set_def s sprintf_lu_1880 lock_env_sel)
  have g: "0 < env_lock_fd (lock_env [0x31, 0x38, 0x38, 0x30])"
    by (simp add: lock_env_sel)
  have h: "\<not> isdigit (malloc 64 (env_skip_str (lock_env [0x31, 0x38, 0x38, 0x30]))
                   ! length (env_lock_file (lock_env [0x31, 0x38, 0x38, 0x30])))"
    by (simp add: lock_env_sel malloc_zero isdigit_zero)
  from lock_round_trip [OF a b c d e f g h, of 3 ts_file] a b c d f g h show ?thesis
    by blast
qed

text \<open>
  The claim as the specification words it, a warning whenever the stored
  offset is not below the size of the file, fails for the offset 0 and an
  empty file: the test of the offset against the size is made for an offset
  other than 0 only, and the log holds no such warning.
\<close>

theorem lock_round_trip_counterexample:
  "timer_skip_set 4 1 (lock_state 0) None = Some [0x30]
   \<and> module_init lock_options (lock_env [0x30]) module_zero = Inr (lock_state 0)
   \<and> input_skip (lock_state 0) \<ge> of_nat (length ([] :: u8 list))
   \<and> log (open_file_stat 3 [] (lock_state 0)) = []
   \<and> open_file 3 [] (lock_state 0)
       = Inr (1, (lock_state 0)\<lparr>fd := 3, log := [Warning ''file is too small'']\<rparr>)"
  by (simp add: module_init_lock_zero timer_skip_set_def sprintf_lu_def decimal.simps
      open_file_def open_file_stat_def open_file_read_def pread_def store_at_def add_log_def
      open_file_pcr_def calc_pcr_zeros Let_def lock_state_def init_state_sel TS_PACKET_SIZE_def)

text \<open>
  What the condition on \<^verbatim>\<open>skip_str\<close> is for: \<^verbatim>\<open>read\<close> does not end the bytes
  it stores, so a digit left in the array after them is read as part of the
  number. The lock file holds 123 and the offset becomes 1234.
\<close>

lemma lock_stale_digit_example:
  "module_init lock_options ((lock_env [0x31, 0x32, 0x33])\<lparr>env_skip_str := [0, 0, 0, 0x34]\<rparr>)
     module_zero = Inr (lock_state 1234)"
  by (simp add: module_init_def module_init_lock_def lock_options_sel lock_env_sel malloc_def
      store_at_def strtoul_def isspace_def isdigit_def ULONG_MAX_def Let_def
      lock_state_def init_state_def module_zero_def SYNC_BUFFER_SIZE_def TS_PACKET_SIZE_def
      INPUT_BUFFER_SIZE_def lock_env_def quiet_env_def strtoul_digits_zeros)

end
